theory Spec2Isabelle
  imports Main
begin

section \<open>Data model\<close>

text \<open>
  The development embeds the processing-session orchestrator of
  \<^verbatim>\<open>processar-homologacao.component.ts\<close> (class \<^verbatim>\<open>ProcessarHomologacaoComponent\<close>):
  the transient log ring (\<^verbatim>\<open>addLog\<close>), its mirroring into the persisted store
  (\<^verbatim>\<open>addPersistentLog\<close>), configuration loading and repair (\<^verbatim>\<open>loadConfiguration\<close>,
  \<^verbatim>\<open>repairConfiguration\<close>, \<^verbatim>\<open>performAutomaticRepair\<close>, \<^verbatim>\<open>debugAndRepairConfig\<close>),
  the four submit operations and the
  polling timer (\<^verbatim>\<open>startProgressMonitoring\<close>, \<^verbatim>\<open>stopProgressMonitoring\<close>).

  Of \<^verbatim>\<open>initializeConfiguration\<close> only the classification expression
  \<^verbatim>\<open>isConfigError\<close> is embedded; the directory pickers, the JSON and PDF listings and the
  view state are left out.

  The component runs on one event loop. An asynchronous method is embedded in two parts:
  the code up to its \<^verbatim>\<open>await\<close>, which issues a backend command and leaves a suspended
  task in the state, and the code that runs once the backend has settled that command. A
  run of the component is a list of events (a settled command, a firing timer, a call from
  the view), each with the clock reading \<open>now\<close> that \<^verbatim>\<open>new Date()\<close> and
  \<^verbatim>\<open>Date.now()\<close> return during it. An early \<^verbatim>\<open>return\<close> of a submit operation is the
  error value \<open>InvalidSpec\<close> of the specification's taxonomy.

  JavaScript strings are embedded as byte strings in UTF-8: a glyph outside ASCII is the
  list of its bytes. The searched substrings of the component are all ASCII, so a
  substring test on the bytes agrees with \<^verbatim>\<open>String.prototype.includes\<close>.
\<close>

datatype log_type = Info | Success | Error | Progress

text \<open>An element of \<^verbatim>\<open>progressLogs\<close>: \<^verbatim>\<open>{message, timestamp: Date, type}\<close>.\<close>

record log_entry =
  message :: string
  timestamp :: nat
  type :: log_type

text \<open>Interface \<^verbatim>\<open>ProcessingLog\<close> (an element of the persisted log).\<close>

record ProcessingLog =
  pl_timestamp :: string
  pl_message :: string
  pl_log_type :: string
  pl_session_id :: "string option"

text \<open>Interface \<^verbatim>\<open>AppConfig\<close>.\<close>

record AppConfig =
  last_input_directory :: "string option"
  last_output_directory :: "string option"
  cfg_verbose :: bool
  processing_logs :: "ProcessingLog list"
  max_logs :: nat
  created_at :: string
  updated_at :: string

text \<open>Interface \<^verbatim>\<open>ConfigResult\<close>.\<close>

record ConfigResult =
  cr_success :: bool
  cr_message :: string
  cr_config :: "AppConfig option"

text \<open>
  Interface \<^verbatim>\<open>ProcessingResult\<close>; the elements of \<^verbatim>\<open>propostas\<close> and
  \<^verbatim>\<open>extracted_data\<close> have type \<^verbatim>\<open>any\<close> and are kept as serialised text.
\<close>

type_synonym any = string

record ProcessingResult =
  pr_success :: bool
  pr_message :: string
  pr_file_path :: "string option"
  pr_extracted_data :: "any option"
  pr_propostas :: "any list"
  pr_total_processed :: nat
  pr_json_file_path :: "string option"
  pr_session_id :: "string option"

text \<open>Interface \<^verbatim>\<open>ProcessingStatus\<close>.\<close>

record ProcessingStatus =
  is_processing :: bool
  current_file :: "string option"
  processed_files :: nat
  total_files :: nat
  errors :: "string list"
  progress_percentage :: nat

text \<open>Interface \<^verbatim>\<open>PdfFileInfo\<close>.\<close>

record PdfFileInfo =
  file_name :: string
  file_path :: string
  file_size :: nat
  modified_timestamp :: nat

text \<open>
  A value caught by \<^verbatim>\<open>catch (error: any)\<close>: the backend rejects either with a plain
  string or with an object that may carry \<^verbatim>\<open>message\<close> and \<^verbatim>\<open>details\<close>.
\<close>

datatype js_error = ErrText string | ErrObject "string option" "string option"

fun err_message :: "js_error \<Rightarrow> string option" where
  "err_message (ErrText s) = None"
| "err_message (ErrObject m d) = m"

fun err_details :: "js_error \<Rightarrow> string option" where
  "err_details (ErrText s) = None"
| "err_details (ErrObject m d) = d"

text \<open>String conversion of a caught value inside a template literal.\<close>

fun error_to_string :: "js_error \<Rightarrow> string" where
  "error_to_string (ErrText s) = s"
| "error_to_string (ErrObject m d) = ''[object Object]''"

datatype SubmitError = AlreadyRunning | InvalidSpec

section \<open>Strings\<close>

fun starts_with :: "string \<Rightarrow> string \<Rightarrow> bool" where
  "starts_with s [] = True"
| "starts_with [] (d # ds) = False"
| "starts_with (c # cs) (d # ds) = (c = d \<and> starts_with cs ds)"

text \<open>\<^verbatim>\<open>s.includes(sub)\<close>.\<close>

fun str_includes :: "string \<Rightarrow> string \<Rightarrow> bool" where
  "str_includes [] sub = (sub = [])"
| "str_includes (c # cs) sub = (starts_with (c # cs) sub \<or> str_includes cs sub)"

text \<open>
  \<^verbatim>\<open>error?.field?.includes(sub)\<close> as a condition: an absent field gives
  \<^verbatim>\<open>undefined\<close>, which is falsy.
\<close>

definition field_includes :: "string option \<Rightarrow> string \<Rightarrow> bool" where
  "field_includes field sub = (case field of None \<Rightarrow> False | Some s \<Rightarrow> str_includes s sub)"

text \<open>\<^verbatim>\<open>s.split('\n')\<close>: always at least one piece.\<close>

fun split_lines :: "string \<Rightarrow> string list" where
  "split_lines [] = [[]]"
| "split_lines (c # cs) =
     (if c = CHR 0x0A then [] # split_lines cs
      else (case split_lines cs of [] \<Rightarrow> [[c]] | l # ls \<Rightarrow> (c # l) # ls))"

text \<open>
  \<^verbatim>\<open>s.trim()\<close>: the white space and line terminators of ECMAScript, in UTF-8, are
  stripped from both ends: U+0009 to U+000D, U+0020, U+00A0, U+1680, U+2000 to U+200A,
  U+2028, U+2029, U+202F, U+205F, U+3000 and U+FEFF.
\<close>

definition white_space :: "string list" where
  "white_space =
     [[CHR 0x09], [CHR 0x0A], [CHR 0x0B], [CHR 0x0C], [CHR 0x0D], [CHR 0x20],
      [CHR 0xC2, CHR 0xA0], [CHR 0xE1, CHR 0x9A, CHR 0x80],
      [CHR 0xE2, CHR 0x80, CHR 0x80], [CHR 0xE2, CHR 0x80, CHR 0x81],
      [CHR 0xE2, CHR 0x80, CHR 0x82], [CHR 0xE2, CHR 0x80, CHR 0x83],
      [CHR 0xE2, CHR 0x80, CHR 0x84], [CHR 0xE2, CHR 0x80, CHR 0x85],
      [CHR 0xE2, CHR 0x80, CHR 0x86], [CHR 0xE2, CHR 0x80, CHR 0x87],
      [CHR 0xE2, CHR 0x80, CHR 0x88], [CHR 0xE2, CHR 0x80, CHR 0x89],
      [CHR 0xE2, CHR 0x80, CHR 0x8A], [CHR 0xE2, CHR 0x80, CHR 0xA8],
      [CHR 0xE2, CHR 0x80, CHR 0xA9], [CHR 0xE2, CHR 0x80, CHR 0xAF],
      [CHR 0xE2, CHR 0x81, CHR 0x9F], [CHR 0xE3, CHR 0x80, CHR 0x80],
      [CHR 0xEF, CHR 0xBB, CHR 0xBF]]"

text \<open>Strip leading occurrences of the given byte sequences; every step removes at least
  one byte, so as many steps as the string has bytes are enough.\<close>

fun strip_leading :: "string list \<Rightarrow> nat \<Rightarrow> string \<Rightarrow> string" where
  "strip_leading pats 0 s = s"
| "strip_leading pats (Suc n) s =
     (case find (starts_with s) pats of
        None \<Rightarrow> s
      | Some p \<Rightarrow> strip_leading pats n (drop (length p) s))"

definition trimStart :: "string \<Rightarrow> string" where
  "trimStart s = strip_leading white_space (length s) s"

definition trimEnd :: "string \<Rightarrow> string" where
  "trimEnd s = rev (strip_leading (map rev white_space) (length s) (rev s))"

definition trim :: "string \<Rightarrow> string" where
  "trim s = trimEnd (trimStart s)"

definition digit_char :: "nat \<Rightarrow> char" where
  "digit_char d =
     (if d = 0 then CHR ''0'' else if d = 1 then CHR ''1'' else if d = 2 then CHR ''2''
      else if d = 3 then CHR ''3'' else if d = 4 then CHR ''4'' else if d = 5 then CHR ''5''
      else if d = 6 then CHR ''6'' else if d = 7 then CHR ''7'' else if d = 8 then CHR ''8''
      else CHR ''9'')"

text \<open>
  Decimal rendering of a count, as \<^verbatim>\<open>toString()\<close> and template literals give it. The
  numbers rendered are array lengths, file counts and the millisecond clock; the rendering
  agrees with JavaScript's for every integer below \<^verbatim>\<open>1e21\<close> that a number holds exactly.
\<close>

fun show_nat :: "nat \<Rightarrow> string" where
  "show_nat n = (if n < 10 then [digit_char n] else show_nat (n div 10) @ [digit_char (n mod 10)])"

text \<open>\<^verbatim>\<open>xs.slice(-n)\<close>: the last \<open>n\<close> elements.\<close>

definition slice_last :: "nat \<Rightarrow> 'a list \<Rightarrow> 'a list" where
  "slice_last n xs = drop (length xs - n) xs"

text \<open>The literal messages of the component.\<close>

definition msg_auto_start :: string where
  "msg_auto_start = [CHR 0xF0, CHR 0x9F, CHR 0x94, CHR 0xA7] @ '' Executando reparo autom'' @ [CHR 0xC3, CHR 0xA1] @ ''tico da configura'' @ [CHR 0xC3, CHR 0xA7, CHR 0xC3, CHR 0xA3] @ ''o...''"

definition msg_auto_ok :: string where
  "msg_auto_ok = [CHR 0xE2, CHR 0x9C, CHR 0x85] @ '' Reparo autom'' @ [CHR 0xC3, CHR 0xA1] @ ''tico executado com sucesso''"

definition msg_auto_more :: string where
  "msg_auto_more = ''  ... (detalhes completos dispon'' @ [CHR 0xC3, CHR 0xAD] @ ''veis no console)''"

definition msg_auto_fail :: string where
  "msg_auto_fail = [CHR 0xE2, CHR 0x9D, CHR 0x8C] @ '' Falha no reparo autom'' @ [CHR 0xC3, CHR 0xA1] @ ''tico''"

definition msg_auto_crit :: string where
  "msg_auto_crit = [CHR 0xE2, CHR 0x9D, CHR 0x8C] @ '' Erro cr'' @ [CHR 0xC3, CHR 0xAD] @ ''tico no reparo autom'' @ [CHR 0xC3, CHR 0xA1] @ ''tico''"

definition msg_repair_start :: string where
  "msg_repair_start = [CHR 0xF0, CHR 0x9F, CHR 0x94, CHR 0xA7] @ '' Detectado problema na configura'' @ [CHR 0xC3, CHR 0xA7, CHR 0xC3, CHR 0xA3] @ ''o, tentando reparar...''"

definition msg_repair_ok :: string where
  "msg_repair_ok = [CHR 0xE2, CHR 0x9C, CHR 0x85] @ '' Configura'' @ [CHR 0xC3, CHR 0xA7, CHR 0xC3, CHR 0xA3] @ ''o reparada com sucesso''"

definition msg_repair_fail :: string where
  "msg_repair_fail = [CHR 0xE2, CHR 0x9D, CHR 0x8C] @ '' Falha ao reparar configura'' @ [CHR 0xC3, CHR 0xA7, CHR 0xC3, CHR 0xA3] @ ''o''"

definition msg_repair_crit :: string where
  "msg_repair_crit = [CHR 0xE2, CHR 0x9D, CHR 0x8C] @ '' Erro cr'' @ [CHR 0xC3, CHR 0xAD] @ ''tico ao reparar configura'' @ [CHR 0xC3, CHR 0xA7, CHR 0xC3, CHR 0xA3] @ ''o''"

definition msg_debug_start :: string where
  "msg_debug_start = [CHR 0xF0, CHR 0x9F, CHR 0x94, CHR 0xA7] @ '' Executando debug e reparo da configura'' @ [CHR 0xC3, CHR 0xA7, CHR 0xC3, CHR 0xA3] @ ''o...''"

definition msg_debug_ok :: string where
  "msg_debug_ok = [CHR 0xE2, CHR 0x9C, CHR 0x85] @ '' Debug e reparo executados com sucesso''"

definition msg_debug_fail :: string where
  "msg_debug_fail = [CHR 0xE2, CHR 0x9D, CHR 0x8C] @ '' Falha no debug e reparo''"

definition msg_debug_crit :: string where
  "msg_debug_crit = [CHR 0xE2, CHR 0x9D, CHR 0x8C] @ '' Erro cr'' @ [CHR 0xC3, CHR 0xAD] @ ''tico no debug e reparo''"

definition msg_load_utf8 :: string where
  "msg_load_utf8 = [CHR 0xE2, CHR 0x9A, CHR 0xA0, CHR 0xEF, CHR 0xB8, CHR 0x8F] @ '' Arquivo de configura'' @ [CHR 0xC3, CHR 0xA7, CHR 0xC3, CHR 0xA3] @ ''o cont'' @ [CHR 0xC3, CHR 0xA9] @ ''m dados UTF-8 inv'' @ [CHR 0xC3, CHR 0xA1] @ ''lidos''"

definition msg_load_corrupt :: string where
  "msg_load_corrupt = [CHR 0xE2, CHR 0x9A, CHR 0xA0, CHR 0xEF, CHR 0xB8, CHR 0x8F] @ '' Arquivo de configura'' @ [CHR 0xC3, CHR 0xA7, CHR 0xC3, CHR 0xA3] @ ''o corrompido detectado''"

definition msg_load_error :: string where
  "msg_load_error = [CHR 0xE2, CHR 0x9D, CHR 0x8C] @ '' Erro ao carregar configura'' @ [CHR 0xC3, CHR 0xA7, CHR 0xC3, CHR 0xA3] @ ''o: ''"

definition msg_unknown_error :: string where
  "msg_unknown_error = ''Erro desconhecido''"

definition msg_file_missing :: string where
  "msg_file_missing = [CHR 0xE2, CHR 0x9D, CHR 0x8C] @ '' Arquivo ou pasta de sa'' @ [CHR 0xC3, CHR 0xAD] @ ''da n'' @ [CHR 0xC3, CHR 0xA3] @ ''o selecionados''"

definition msg_dir_missing :: string where
  "msg_dir_missing = [CHR 0xE2, CHR 0x9D, CHR 0x8C] @ '' Pasta ou pasta de sa'' @ [CHR 0xC3, CHR 0xAD] @ ''da n'' @ [CHR 0xC3, CHR 0xA3] @ ''o selecionadas''"

definition msg_file_start :: string where
  "msg_file_start = [CHR 0xF0, CHR 0x9F, CHR 0x94, CHR 0x84] @ '' Iniciando processamento do arquivo...''"

definition msg_dir_start :: string where
  "msg_dir_start = [CHR 0xF0, CHR 0x9F, CHR 0x94, CHR 0x84] @ '' Iniciando processamento da pasta...''"

definition msg_fixed_start :: string where
  "msg_fixed_start = [CHR 0xF0, CHR 0x9F, CHR 0x94, CHR 0x84] @ '' Iniciando processamento da pasta PDF...''"

definition msg_single_start :: string where
  "msg_single_start = [CHR 0xF0, CHR 0x9F, CHR 0x94, CHR 0x84] @ '' Processando arquivo: ''"

definition msg_file_ok :: string where
  "msg_file_ok = [CHR 0xE2, CHR 0x9C, CHR 0x85] @ '' Arquivo processado com sucesso! ''"

definition msg_file_ok_tail :: string where
  "msg_file_ok_tail = '' propostas encontradas''"

definition msg_dir_ok :: string where
  "msg_dir_ok = [CHR 0xE2, CHR 0x9C, CHR 0x85] @ '' Pasta processada com sucesso! ''"

definition msg_fixed_ok :: string where
  "msg_fixed_ok = [CHR 0xE2, CHR 0x9C, CHR 0x85] @ '' Pasta PDF processada com sucesso! ''"

definition msg_dir_ok_tail :: string where
  "msg_dir_ok_tail = '' arquivos processados''"

definition msg_total :: string where
  "msg_total = [CHR 0xF0, CHR 0x9F, CHR 0x93, CHR 0x8A] @ '' Total de propostas: ''"

definition msg_json_saved :: string where
  "msg_json_saved = [CHR 0xF0, CHR 0x9F, CHR 0x93, CHR 0x84] @ '' Arquivo JSON salvo em: ''"

definition msg_proc_error :: string where
  "msg_proc_error = [CHR 0xE2, CHR 0x9D, CHR 0x8C] @ '' Erro no processamento: ''"

definition msg_proc_exc :: string where
  "msg_proc_exc = [CHR 0xE2, CHR 0x9D, CHR 0x8C] @ '' Erro durante o processamento''"

definition msg_fixed_exc :: string where
  "msg_fixed_exc = [CHR 0xE2, CHR 0x9D, CHR 0x8C] @ '' Erro durante o processamento da pasta PDF''"

definition msg_exc_result :: string where
  "msg_exc_result = ''Erro durante o processamento: ''"

definition msg_monitor_start :: string where
  "msg_monitor_start = [CHR 0xF0, CHR 0x9F, CHR 0x93, CHR 0x8A] @ '' Monitoramento de progresso iniciado''"

definition msg_tick_file :: string where
  "msg_tick_file = [CHR 0xF0, CHR 0x9F, CHR 0x93, CHR 0x84] @ '' Processando: ''"

definition msg_tick_error :: string where
  "msg_tick_error = [CHR 0xE2, CHR 0x9D, CHR 0x8C] @ '' ''"

definition msg_tick_done :: string where
  "msg_tick_done = [CHR 0xE2, CHR 0x9C, CHR 0x85] @ '' Processamento conclu'' @ [CHR 0xC3, CHR 0xAD] @ ''do''"

section \<open>Component state and environment\<close>

text \<open>The backend commands the component passes to \<^verbatim>\<open>invoke\<close>, with their arguments.\<close>

datatype command =
    Load_app_config
  | Debug_and_repair_config
  | Add_config_log string log_type "string option"
  | Process_pdf_file string string bool
  | Process_pdf_directory string string bool string
  | Process_pdf_fixed_directory bool string
  | Get_processing_status string
  | Clear_processing_state string

datatype submit_kind = File | Directory | FixedDirectory | SinglePdfFile

text \<open>
  An asynchronous method suspended at \<^verbatim>\<open>await invoke(...)\<close>: the constructor names the
  command awaited, hence the code that runs when the backend settles the call.
\<close>

datatype pending =
    Await_load_app_config
  | Await_repair_config
  | Await_auto_repair
  | Await_debug_repair
  | Await_add_config_log
  | Await_status string
  | Await_clear_state
  | Await_submit submit_kind

text \<open>
  A method suspended at \<^verbatim>\<open>await this.other()\<close>: \<^verbatim>\<open>loadConfiguration\<close> awaiting
  \<^verbatim>\<open>repairConfiguration\<close>, and \<^verbatim>\<open>repairConfiguration\<close>, \<^verbatim>\<open>debugAndRepairConfig\<close>
  and \<^verbatim>\<open>addPersistentLog\<close> awaiting \<^verbatim>\<open>loadConfiguration\<close>.
\<close>

datatype caller =
    In_loadConfiguration
  | In_repairConfiguration
  | In_debugAndRepairConfig
  | In_addPersistentLog

text \<open>How the backend settles a call: resolved with a value, or rejected.\<close>

datatype response =
    Resolved_config AppConfig
  | Resolved_config_result ConfigResult
  | Resolved_processing ProcessingResult
  | Resolved_status ProcessingStatus
  | Resolved_unit
  | Rejected js_error

text \<open>
  The fields of the component that the modelled methods read or write, followed by the
  environment: the commands invoked so far (\<open>invoked\<close>), the suspended asynchronous calls
  (\<open>tasks\<close>, each with its identifier and the chain of awaiting callers), the running
  interval timers with the session identifier their callback closes over (\<open>intervals\<close>),
  the handles passed to \<^verbatim>\<open>clearInterval\<close> (\<open>cleared\<close>), and the number of
  \<^verbatim>\<open>setTimeout\<close> callbacks to \<^verbatim>\<open>performAutomaticRepair\<close> not yet run.
\<close>

record component =
  selectedFile :: string
  pdfDirectory :: string
  outputDirectory :: string
  verbose :: bool
  processing :: bool
  processingResult :: "ProcessingResult option"
  processingStatus :: "ProcessingStatus option"
  currentSessionId :: string
  progressInterval :: "nat option"
  progressLogs :: "log_entry list"
  totalProposals :: nat
  appConfig :: "AppConfig option"
  configLoaded :: bool
  persistentLogs :: "ProcessingLog list"
  isRepairingConfig :: bool
  invoked :: "command list"
  tasks :: "(nat \<times> pending \<times> caller list) list"
  nextTask :: nat
  intervals :: "(nat \<times> string) list"
  nextHandle :: nat
  cleared :: "nat list"
  scheduledRepairs :: nat

text \<open>The field initialisers of the class; timer handles are positive integers.\<close>

definition initial :: component where
  "initial = \<lparr> selectedFile = [], pdfDirectory = [], outputDirectory = [], verbose = False,
     processing = False, processingResult = None, processingStatus = None,
     currentSessionId = [], progressInterval = None, progressLogs = [], totalProposals = 0,
     appConfig = None, configLoaded = False, persistentLogs = [], isRepairingConfig = False,
     invoked = [], tasks = [], nextTask = 0, intervals = [], nextHandle = 1, cleared = [],
     scheduledRepairs = 0 \<rparr>"

text \<open>
  \<^verbatim>\<open>await invoke(cmd)\<close>: the command is issued at once and the method is suspended
  until the backend settles it.
\<close>

definition invoke :: "command \<Rightarrow> pending \<Rightarrow> caller list \<Rightarrow> component \<Rightarrow> component" where
  "invoke c p ks w =
     w\<lparr> invoked := invoked w @ [c],
        tasks := tasks w @ [(nextTask w, p, ks)],
        nextTask := Suc (nextTask w) \<rparr>"

section \<open>Log aggregator\<close>

text \<open>
  \<^verbatim>\<open>addPersistentLog\<close> up to its first \<^verbatim>\<open>await\<close>: nothing happens while a repair
  is running; otherwise \<^verbatim>\<open>add_config_log\<close> is invoked with
  \<^verbatim>\<open>sessionId: this.currentSessionId || null\<close>.
\<close>

definition addPersistentLog :: "string \<Rightarrow> log_type \<Rightarrow> component \<Rightarrow> component" where
  "addPersistentLog m t w =
     (if isRepairingConfig w then w
      else invoke (Add_config_log m t (if currentSessionId w = [] then None else Some (currentSessionId w)))
             Await_add_config_log [] w)"

text \<open>
  \<^verbatim>\<open>addLog(message, type)\<close> at time \<open>now\<close>: a progress entry equal in type and message
  to the last entry is dropped; otherwise the entry is pushed, the ring is cut to its last
  100 entries, and the entry is mirrored unless it is a progress entry or a repair runs.
\<close>

definition addLog :: "string \<Rightarrow> log_type \<Rightarrow> nat \<Rightarrow> component \<Rightarrow> component" where
  "addLog m t now w =
     (let logEntry = \<lparr> message = m, timestamp = now, type = t \<rparr> in
      if t = Progress \<and> progressLogs w \<noteq> [] \<and> type (last (progressLogs w)) = Progress
           \<and> message (last (progressLogs w)) = m
      then w
      else
        let pushed = progressLogs w @ [logEntry];
            w1 = w\<lparr> progressLogs := (if length pushed > 100 then slice_last 100 pushed else pushed) \<rparr>
        in if t \<noteq> Progress \<and> \<not> isRepairingConfig w1 then addPersistentLog m t w1 else w1)"

text \<open>The loop \<^verbatim>\<open>for (const line of lines) if (line.trim()) this.addLog(`  ${line.trim()}`, 'info')\<close>.\<close>

definition addLog_lines :: "string list \<Rightarrow> nat \<Rightarrow> component \<Rightarrow> component" where
  "addLog_lines lines now w =
     fold (\<lambda>line w'. if trim line \<noteq> [] then addLog (''  '' @ trim line) Info now w' else w') lines w"

section \<open>Configuration loading and repair\<close>

text \<open>The two classification expressions shared by \<^verbatim>\<open>loadConfiguration\<close> and
  \<^verbatim>\<open>addPersistentLog\<close>.\<close>

definition isUtf8Error :: "js_error \<Rightarrow> bool" where
  "isUtf8Error e =
     (field_includes (err_message e) ''UTF-8''
      \<or> field_includes (err_message e) ''stream did not contain valid UTF-8'')"

definition isDeserializationError :: "js_error \<Rightarrow> bool" where
  "isDeserializationError e =
     (field_includes (err_details e) ''licitacao360_config.json''
      \<and> (field_includes (err_message e) ''deserializar''
           \<or> field_includes (err_message e) ''trailing characters''))"

text \<open>The classification expression \<^verbatim>\<open>isConfigError\<close> of \<^verbatim>\<open>initializeConfiguration\<close>.\<close>

definition isConfigError :: "js_error \<Rightarrow> bool" where
  "isConfigError e =
     (field_includes (err_details e) ''licitacao360_config.json''
      \<or> field_includes (err_message e) ''UTF-8''
      \<or> field_includes (err_message e) ''deserializar''
      \<or> field_includes (err_message e) ''trailing characters'')"

text \<open>A method returns: the awaiting callers continue, innermost first.\<close>

fun return_to :: "caller list \<Rightarrow> component \<Rightarrow> component" where
  "return_to [] w = w"
| "return_to (In_loadConfiguration # ks) w = return_to ks w"
| "return_to (In_repairConfiguration # ks) w = return_to ks w"
| "return_to (In_debugAndRepairConfig # ks) w = return_to ks w"
| "return_to (In_addPersistentLog # ks) w =
     return_to ks (case appConfig w of None \<Rightarrow> w
                   | Some c \<Rightarrow> w\<lparr> persistentLogs := processing_logs c \<rparr>)"

definition loadConfiguration :: "caller list \<Rightarrow> component \<Rightarrow> component" where
  "loadConfiguration ks w = invoke Load_app_config Await_load_app_config ks w"

definition repairConfiguration :: "caller list \<Rightarrow> nat \<Rightarrow> component \<Rightarrow> component" where
  "repairConfiguration ks now w =
     invoke Debug_and_repair_config Await_repair_config ks (addLog msg_repair_start Info now w)"

text \<open>\<^verbatim>\<open>debugAndRepairConfig\<close> up to its \<^verbatim>\<open>await\<close>; it is called from the view only.\<close>

definition debugAndRepairConfig :: "nat \<Rightarrow> component \<Rightarrow> component" where
  "debugAndRepairConfig now w =
     invoke Debug_and_repair_config Await_debug_repair [] (addLog msg_debug_start Info now w)"

text \<open>\<^verbatim>\<open>performAutomaticRepair\<close> up to its \<^verbatim>\<open>await\<close>: with the flag set it returns at
  its first statement.\<close>

definition performAutomaticRepair :: "nat \<Rightarrow> component \<Rightarrow> component" where
  "performAutomaticRepair now w =
     (if isRepairingConfig w then w
      else
        let w1 = w\<lparr> isRepairingConfig := True \<rparr>;
            w2 = addLog msg_auto_start Info now w1
        in invoke Debug_and_repair_config Await_auto_repair [] w2)"

text \<open>\<^verbatim>\<open>loadConfiguration\<close> after \<^verbatim>\<open>load_app_config\<close> is settled.\<close>

definition on_load_app_config :: "response \<Rightarrow> caller list \<Rightarrow> nat \<Rightarrow> component \<Rightarrow> component option" where
  "on_load_app_config r ks now w =
     (case r of
        Resolved_config c \<Rightarrow> Some (return_to ks (w\<lparr> appConfig := Some c, configLoaded := True \<rparr>))
      | Rejected e \<Rightarrow>
          (let w1 = w\<lparr> configLoaded := False \<rparr> in
           if isUtf8Error e \<or> isDeserializationError e then
             let w2 = addLog (if isUtf8Error e then msg_load_utf8 else msg_load_corrupt) Error now w1
             in Some (repairConfiguration (In_loadConfiguration # ks) now w2)
           else
             Some (return_to ks
                    (addLog (msg_load_error @
                               (case err_message e of None \<Rightarrow> msg_unknown_error
                                | Some m \<Rightarrow> if m = [] then msg_unknown_error else m))
                       Error now w1)))
      | _ \<Rightarrow> None)"

text \<open>\<^verbatim>\<open>repairConfiguration\<close> after \<^verbatim>\<open>debug_and_repair_config\<close> is settled.\<close>

definition on_repair_config :: "response \<Rightarrow> caller list \<Rightarrow> nat \<Rightarrow> component \<Rightarrow> component option" where
  "on_repair_config r ks now w =
     (case r of
        Resolved_config_result res \<Rightarrow>
          (if cr_success res then
             let w1 = addLog msg_repair_ok Success now w;
                 w2 = addLog_lines (split_lines (cr_message res)) now w1
             in Some (loadConfiguration (In_repairConfiguration # ks) w2)
           else Some (return_to ks (addLog msg_repair_fail Error now w)))
      | Rejected e \<Rightarrow> Some (return_to ks (addLog msg_repair_crit Error now w))
      | _ \<Rightarrow> None)"

text \<open>\<^verbatim>\<open>debugAndRepairConfig\<close> after \<^verbatim>\<open>debug_and_repair_config\<close> is settled.\<close>

definition on_debug_repair :: "response \<Rightarrow> caller list \<Rightarrow> nat \<Rightarrow> component \<Rightarrow> component option" where
  "on_debug_repair r ks now w =
     (case r of
        Resolved_config_result res \<Rightarrow>
          (if cr_success res then
             let w1 = addLog msg_debug_ok Success now w;
                 w2 = addLog_lines (split_lines (cr_message res)) now w1
             in Some (loadConfiguration (In_debugAndRepairConfig # ks) w2)
           else Some (return_to ks (addLog msg_debug_fail Error now w)))
      | Rejected e \<Rightarrow> Some (return_to ks (addLog msg_debug_crit Error now w))
      | _ \<Rightarrow> None)"

text \<open>\<^verbatim>\<open>performAutomaticRepair\<close> after \<^verbatim>\<open>debug_and_repair_config\<close> is settled; the
  \<^verbatim>\<open>finally\<close> block clears the flag on every path.\<close>

definition on_auto_repair :: "response \<Rightarrow> caller list \<Rightarrow> nat \<Rightarrow> component \<Rightarrow> component option" where
  "on_auto_repair r ks now w =
     (case r of
        Resolved_config_result res \<Rightarrow>
          (let w1 =
             (if cr_success res then
                let wa = addLog msg_auto_ok Success now w;
                    wb = addLog_lines (take 10 (split_lines (cr_message res))) now wa
                in if length (split_lines (cr_message res)) > 10
                   then addLog msg_auto_more Info now wb else wb
              else addLog msg_auto_fail Error now w)
           in Some (return_to ks (w1\<lparr> isRepairingConfig := False \<rparr>)))
      | Rejected e \<Rightarrow>
          Some (return_to ks ((addLog msg_auto_crit Error now w)\<lparr> isRepairingConfig := False \<rparr>))
      | _ \<Rightarrow> None)"

text \<open>\<^verbatim>\<open>addPersistentLog\<close> after \<^verbatim>\<open>add_config_log\<close> is settled: on success the
  configuration is reloaded; on rejection nothing is logged, and a recognised corruption
  schedules \<^verbatim>\<open>performAutomaticRepair\<close> with \<^verbatim>\<open>setTimeout\<close> unless a repair runs.\<close>

definition on_add_config_log :: "response \<Rightarrow> caller list \<Rightarrow> nat \<Rightarrow> component \<Rightarrow> component option" where
  "on_add_config_log r ks now w =
     (case r of
        Resolved_config_result res \<Rightarrow> Some (loadConfiguration (In_addPersistentLog # ks) w)
      | Rejected e \<Rightarrow>
          (if (isUtf8Error e \<or> isDeserializationError e) \<and> \<not> isRepairingConfig w
           then Some (return_to ks (w\<lparr> scheduledRepairs := Suc (scheduledRepairs w) \<rparr>))
           else Some (return_to ks w))
      | _ \<Rightarrow> None)"

section \<open>Session manager\<close>

text \<open>\<^verbatim>\<open>stopProgressMonitoring\<close>: \<^verbatim>\<open>if (this.progressInterval)\<close> holds for a handle that is
  neither \<^verbatim>\<open>null\<close>/\<^verbatim>\<open>undefined\<close> nor \<open>0\<close>.\<close>

definition stopProgressMonitoring :: "component \<Rightarrow> component" where
  "stopProgressMonitoring w =
     (case progressInterval w of
        None \<Rightarrow> w
      | Some h \<Rightarrow>
          if h = 0 then w
          else w\<lparr> cleared := cleared w @ [h],
                  intervals := filter (\<lambda>(h', sid). h' \<noteq> h) (intervals w),
                  progressInterval := None \<rparr>)"

text \<open>\<^verbatim>\<open>startProgressMonitoring(sessionId)\<close>: it has no \<^verbatim>\<open>await\<close> of its own, so it runs
  to its end inside its caller; \<^verbatim>\<open>setInterval\<close> returns a fresh handle.\<close>

definition startProgressMonitoring :: "string \<Rightarrow> nat \<Rightarrow> component \<Rightarrow> component" where
  "startProgressMonitoring sessionId now w =
     (let w1 = addLog msg_monitor_start Info now w in
      w1\<lparr> progressInterval := Some (nextHandle w1),
          intervals := intervals w1 @ [(nextHandle w1, sessionId)],
          nextHandle := Suc (nextHandle w1) \<rparr>)"

text \<open>The timer callback up to its \<^verbatim>\<open>await\<close>.\<close>

definition tick :: "string \<Rightarrow> component \<Rightarrow> component" where
  "tick sessionId w = invoke (Get_processing_status sessionId) (Await_status sessionId) [] w"

text \<open>The log entries of one observed status: a progress entry for the current file, if
  any, then an error entry for every element of \<^verbatim>\<open>status.errors\<close>.\<close>

definition log_status :: "ProcessingStatus \<Rightarrow> nat \<Rightarrow> component \<Rightarrow> component" where
  "log_status status now w =
     (let w1 = (case current_file status of
                  None \<Rightarrow> w
                | Some f \<Rightarrow>
                    if f = [] then w
                    else addLog (msg_tick_file @ f @ '' ('' @ show_nat (processed_files status)
                                   @ ''/'' @ show_nat (total_files status) @ '')'')
                           Progress now w)
      in fold (\<lambda>e w'. addLog (msg_tick_error @ e) Error now w') (errors status) w1)"

text \<open>The timer callback after \<^verbatim>\<open>get_processing_status\<close> is settled.\<close>

definition on_status :: "string \<Rightarrow> response \<Rightarrow> nat \<Rightarrow> component \<Rightarrow> component option" where
  "on_status sessionId r now w =
     (case r of
        Resolved_status status \<Rightarrow>
          (let w1 = log_status status now (w\<lparr> processingStatus := Some status \<rparr>)
           in if \<not> is_processing status then
                let w2 = stopProgressMonitoring w1;
                    w3 = addLog msg_tick_done Success now w2
                in Some (invoke (Clear_processing_state sessionId) Await_clear_state [] w3)
              else Some w1)
      | Rejected e \<Rightarrow> Some (stopProgressMonitoring w)
      | _ \<Rightarrow> None)"

text \<open>The timer callback after \<^verbatim>\<open>clear_processing_state\<close> is settled: a rejection is
  only written to the console.\<close>

definition on_clear_state :: "response \<Rightarrow> component \<Rightarrow> component option" where
  "on_clear_state r w =
     (case r of Resolved_unit \<Rightarrow> Some w | Rejected e \<Rightarrow> Some w | _ \<Rightarrow> None)"

text \<open>The assignments every submit operation makes before its \<^verbatim>\<open>await\<close>;
  \<^verbatim>\<open>Date.now().toString()\<close> is the provisional session identifier.\<close>

definition begin_session :: "nat \<Rightarrow> component \<Rightarrow> component" where
  "begin_session now w =
     w\<lparr> processing := True, processingResult := None, progressLogs := [],
        totalProposals := 0, currentSessionId := show_nat now \<rparr>"

definition processFile :: "nat \<Rightarrow> component \<Rightarrow> (SubmitError \<times> component) + component" where
  "processFile now w =
     (if selectedFile w = [] \<or> outputDirectory w = []
      then Inl (InvalidSpec, addLog msg_file_missing Error now w)
      else
        let w1 = addLog msg_file_start Info now (begin_session now w)
        in Inr (invoke (Process_pdf_file (selectedFile w1) (outputDirectory w1) (verbose w1))
                  (Await_submit File) [] w1))"

definition processDirectory :: "nat \<Rightarrow> component \<Rightarrow> (SubmitError \<times> component) + component" where
  "processDirectory now w =
     (if pdfDirectory w = [] \<or> outputDirectory w = []
      then Inl (InvalidSpec, addLog msg_dir_missing Error now w)
      else
        let w1 = addLog msg_dir_start Info now (begin_session now w)
        in Inr (invoke (Process_pdf_directory (pdfDirectory w1) (outputDirectory w1) (verbose w1)
                          (currentSessionId w1))
                  (Await_submit Directory) [] w1))"

definition processFixedDirectory :: "nat \<Rightarrow> component \<Rightarrow> (SubmitError \<times> component) + component" where
  "processFixedDirectory now w =
     (let w1 = addLog msg_fixed_start Info now (begin_session now w)
      in Inr (invoke (Process_pdf_fixed_directory (verbose w1) (currentSessionId w1))
                (Await_submit FixedDirectory) [] w1))"

definition processSinglePdfFile ::
    "PdfFileInfo option \<Rightarrow> nat \<Rightarrow> component \<Rightarrow> (SubmitError \<times> component) + component" where
  "processSinglePdfFile fileInfo now w =
     (case fileInfo of
        None \<Rightarrow> Inl (InvalidSpec, addLog msg_file_missing Error now w)
      | Some fi \<Rightarrow>
          if outputDirectory w = []
          then Inl (InvalidSpec, addLog msg_file_missing Error now w)
          else
            let w1 = addLog (msg_single_start @ file_name fi) Info now (begin_session now w)
            in Inr (invoke (Process_pdf_file (file_path fi) (outputDirectory w1) (verbose w1))
                      (Await_submit SinglePdfFile) [] w1))"

text \<open>\<^verbatim>\<open>if (result.json_file_path) this.addLog(...)\<close>.\<close>

definition log_json_path :: "ProcessingResult \<Rightarrow> nat \<Rightarrow> component \<Rightarrow> component" where
  "log_json_path result now w =
     (case pr_json_file_path result of
        None \<Rightarrow> w
      | Some p \<Rightarrow> if p = [] then w else addLog (msg_json_saved @ p) Success now w)"

text \<open>The success branch of each submit operation.\<close>

fun log_success :: "submit_kind \<Rightarrow> ProcessingResult \<Rightarrow> nat \<Rightarrow> component \<Rightarrow> component" where
  "log_success File result now w =
     log_json_path result now
       (addLog (msg_file_ok @ show_nat (length (pr_propostas result)) @ msg_file_ok_tail) Success now w)"
| "log_success SinglePdfFile result now w =
     log_json_path result now
       (addLog (msg_file_ok @ show_nat (length (pr_propostas result)) @ msg_file_ok_tail) Success now w)"
| "log_success Directory result now w =
     log_json_path result now
       (addLog (msg_total @ show_nat (length (pr_propostas result))) Success now
         (addLog (msg_dir_ok @ show_nat (pr_total_processed result) @ msg_dir_ok_tail) Success now w))"
| "log_success FixedDirectory result now w =
     log_json_path result now
       (addLog (msg_total @ show_nat (length (pr_propostas result))) Success now
         (addLog (msg_fixed_ok @ show_nat (pr_total_processed result) @ msg_dir_ok_tail) Success now w))"

fun msg_exception :: "submit_kind \<Rightarrow> string" where
  "msg_exception FixedDirectory = msg_fixed_exc"
| "msg_exception k = msg_proc_exc"

text \<open>The \<^verbatim>\<open>finally\<close> block of every submit operation.\<close>

definition submit_finally :: "component \<Rightarrow> component" where
  "submit_finally w = stopProgressMonitoring (w\<lparr> processing := False \<rparr>)"

text \<open>A submit operation after its backend call is settled.\<close>

definition on_submit :: "submit_kind \<Rightarrow> response \<Rightarrow> nat \<Rightarrow> component \<Rightarrow> component option" where
  "on_submit k r now w =
     (case r of
        Resolved_processing result \<Rightarrow>
          (let w1 = (case pr_session_id result of
                       None \<Rightarrow> w
                     | Some sid \<Rightarrow>
                         if sid = [] then w
                         else startProgressMonitoring sid now (w\<lparr> currentSessionId := sid \<rparr>));
               w2 = w1\<lparr> processingResult := Some result,
                        totalProposals := length (pr_propostas result) \<rparr>;
               w3 = (if pr_success result then log_success k result now w2
                     else addLog (msg_proc_error @ pr_message result) Error now w2)
           in Some (submit_finally w3))
      | Rejected e \<Rightarrow>
          (let w1 = addLog (msg_exception k) Error now w;
               w2 = w1\<lparr> processingResult :=
                          Some \<lparr> pr_success = False,
                                 pr_message = msg_exc_result @ error_to_string e,
                                 pr_file_path = None, pr_extracted_data = None,
                                 pr_propostas = [], pr_total_processed = 0,
                                 pr_json_file_path = None, pr_session_id = None \<rparr> \<rparr>
           in Some (submit_finally w2))
      | _ \<Rightarrow> None)"

section \<open>The event loop\<close>

text \<open>The code that runs when the call a task is suspended on is settled.\<close>

fun resume :: "pending \<Rightarrow> response \<Rightarrow> caller list \<Rightarrow> nat \<Rightarrow> component \<Rightarrow> component option" where
  "resume Await_load_app_config r ks now w = on_load_app_config r ks now w"
| "resume Await_repair_config r ks now w = on_repair_config r ks now w"
| "resume Await_auto_repair r ks now w = on_auto_repair r ks now w"
| "resume Await_debug_repair r ks now w = on_debug_repair r ks now w"
| "resume Await_add_config_log r ks now w = on_add_config_log r ks now w"
| "resume (Await_status sid) r ks now w = on_status sid r now w"
| "resume Await_clear_state r ks now w = on_clear_state r w"
| "resume (Await_submit k) r ks now w = on_submit k r now w"

text \<open>The backend settles the call of task \<open>i\<close>; there is no step when no such task is
  suspended or the response is not one the command can give.\<close>

definition settle :: "nat \<Rightarrow> response \<Rightarrow> nat \<Rightarrow> component \<Rightarrow> component option" where
  "settle i r now w =
     (case map_of (tasks w) i of
        None \<Rightarrow> None
      | Some (p, ks) \<Rightarrow> resume p r ks now (w\<lparr> tasks := filter (\<lambda>t. fst t \<noteq> i) (tasks w) \<rparr>))"

text \<open>What the event loop can run: a settled backend call, a firing interval timer, a
  due \<^verbatim>\<open>setTimeout\<close> callback, and the public methods called from the view.\<close>

datatype event =
    Settle nat response
  | Interval_fires nat
  | Timeout_fires
  | Call_processFile
  | Call_processDirectory
  | Call_processFixedDirectory
  | Call_processSinglePdfFile "PdfFileInfo option"
  | Call_loadConfiguration
  | Call_repairConfiguration
  | Call_performAutomaticRepair
  | Call_debugAndRepairConfig
  | Call_addLog string log_type
  | Call_startProgressMonitoring string
  | Call_ngOnDestroy

definition submitted :: "(SubmitError \<times> component) + component \<Rightarrow> component" where
  "submitted x = (case x of Inl (e, w) \<Rightarrow> w | Inr w \<Rightarrow> w)"

fun step :: "nat \<Rightarrow> event \<Rightarrow> component \<Rightarrow> component option" where
  "step now (Settle i r) w = settle i r now w"
| "step now (Interval_fires h) w =
     (case map_of (intervals w) h of None \<Rightarrow> None | Some sid \<Rightarrow> Some (tick sid w))"
| "step now Timeout_fires w =
     (if scheduledRepairs w = 0 then None
      else Some (performAutomaticRepair now (w\<lparr> scheduledRepairs := scheduledRepairs w - 1 \<rparr>)))"
| "step now Call_processFile w = Some (submitted (processFile now w))"
| "step now Call_processDirectory w = Some (submitted (processDirectory now w))"
| "step now Call_processFixedDirectory w = Some (submitted (processFixedDirectory now w))"
| "step now (Call_processSinglePdfFile fi) w = Some (submitted (processSinglePdfFile fi now w))"
| "step now Call_loadConfiguration w = Some (loadConfiguration [] w)"
| "step now Call_repairConfiguration w = Some (repairConfiguration [] now w)"
| "step now Call_performAutomaticRepair w = Some (performAutomaticRepair now w)"
| "step now Call_debugAndRepairConfig w = Some (debugAndRepairConfig now w)"
| "step now (Call_addLog m t) w = Some (addLog m t now w)"
| "step now (Call_startProgressMonitoring sid) w = Some (startProgressMonitoring sid now w)"
| "step now Call_ngOnDestroy w = Some (stopProgressMonitoring w)"

text \<open>A run: events with the clock reading at each.\<close>

fun run :: "(nat \<times> event) list \<Rightarrow> component \<Rightarrow> component option" where
  "run [] w = Some w"
| "run ((now, ev) # evs) w = (case step now ev w of None \<Rightarrow> None | Some w' \<Rightarrow> run evs w')"

text \<open>The sessions in flight: submit operations whose backend call is not yet settled.\<close>

definition submitting :: "component \<Rightarrow> nat list" where
  "submitting w = map fst (filter (\<lambda>t. case fst (snd t) of Await_submit k \<Rightarrow> True | _ \<Rightarrow> False) (tasks w))"

section \<open>Specification vocabulary, observations and scenarios\<close>

text \<open>
  The classification as the specification words it: an error is a corruption signature when it
  indicates invalid text encoding or a structural deserialization failure, and references
  the configuration file. The three indicators are the substring tests the component uses.
\<close>

definition indicates_invalid_encoding :: "js_error \<Rightarrow> bool" where
  "indicates_invalid_encoding e = field_includes (err_message e) ''UTF-8''"

definition indicates_deserialization_failure :: "js_error \<Rightarrow> bool" where
  "indicates_deserialization_failure e =
     (field_includes (err_message e) ''deserializar''
      \<or> field_includes (err_message e) ''trailing characters'')"

definition references_config_file :: "js_error \<Rightarrow> bool" where
  "references_config_file e = field_includes (err_details e) ''licitacao360_config.json''"

definition spec_is_corruption :: "js_error \<Rightarrow> bool" where
  "spec_is_corruption e =
     ((indicates_invalid_encoding e \<or> indicates_deserialization_failure e)
      \<and> references_config_file e)"

text \<open>Observations of a state.\<close>

definition ring_bounded :: "component \<Rightarrow> bool" where
  "ring_bounded w = (length (progressLogs w) \<le> 100)"

definition log_kinds :: "component \<Rightarrow> log_type list" where
  "log_kinds w = map type (progressLogs w)"

definition error_entries :: "component \<Rightarrow> log_entry list" where
  "error_entries w = filter (\<lambda>e. type e = Error) (progressLogs w)"

definition completions :: "component \<Rightarrow> nat" where
  "completions w = length (filter (\<lambda>e. message e = msg_tick_done) (progressLogs w))"

definition repairs_invoked :: "component \<Rightarrow> nat" where
  "repairs_invoked w = length (filter (\<lambda>c. c = Debug_and_repair_config) (invoked w))"

text \<open>No interval timer is running and the component holds no handle.\<close>

definition no_timer :: "component \<Rightarrow> bool" where
  "no_timer w = (intervals w = [] \<and> progressInterval w = None \<and> 0 < nextHandle w)"

text \<open>The event is a direct call of \<^verbatim>\<open>startProgressMonitoring\<close>.\<close>

definition starts_timer :: "nat \<times> event \<Rightarrow> bool" where
  "starts_timer x = (case snd x of Call_startProgressMonitoring sid \<Rightarrow> True | _ \<Rightarrow> False)"

text \<open>The identifier of the most recently suspended call.\<close>

definition latest :: "component \<Rightarrow> nat" where
  "latest w = fst (last (tasks w))"

text \<open>Task identifiers are pairwise distinct and below the next identifier to be given.\<close>

definition fresh_ids :: "component \<Rightarrow> bool" where
  "fresh_ids w = (distinct (map fst (tasks w)) \<and> (\<forall>t \<in> set (tasks w). fst t < nextTask w))"

text \<open>Concrete errors and backend answers.\<close>

definition e_utf8 :: js_error where
  "e_utf8 = ErrObject (Some ''stream did not contain valid UTF-8'') None"

definition e_io :: js_error where
  "e_io = ErrObject (Some ''disk full'') None"

definition e_corrupt :: js_error where
  "e_corrupt = ErrObject (Some ''trailing characters at line 3'')
                         (Some ''/home/user/licitacao360_config.json'')"

definition e_worker :: js_error where
  "e_worker = ErrText ''worker unreachable''"

definition saved :: ConfigResult where
  "saved = \<lparr> cr_success = True, cr_message = ''ok'', cr_config = None \<rparr>"

definition default_config :: AppConfig where
  "default_config = \<lparr> last_input_directory = None, last_output_directory = None,
     cfg_verbose = False, processing_logs = [], max_logs = 1000,
     created_at = ''2024-01-01'', updated_at = ''2024-01-01'' \<rparr>"

definition failed_repair :: ConfigResult where
  "failed_repair = \<lparr> cr_success = False, cr_message = ''cannot write'', cr_config = None \<rparr>"

definition done_status :: ProcessingStatus where
  "done_status = \<lparr> is_processing = False, current_file = None, processed_files = 3,
     total_files = 3, errors = [], progress_percentage = 100 \<rparr>"

text \<open>Concrete states: paths chosen; one submit in flight; a timer running with two status
  calls in flight; a repair in progress; a ring that ends in a progress entry.\<close>

definition w_ready :: component where
  "w_ready = initial\<lparr> selectedFile := ''/a/x.pdf'', pdfDirectory := ''/a'', outputDirectory := ''/b'' \<rparr>"

definition w_active :: component where
  "w_active = submitted (processFile 1 w_ready)"

definition w_polling :: component where
  "w_polling = tick ''s1'' (tick ''s1'' (startProgressMonitoring ''s1'' 1 initial))"

definition w_repairing :: component where
  "w_repairing = initial\<lparr> isRepairingConfig := True \<rparr>"

definition w_progress :: component where
  "w_progress = initial\<lparr> progressLogs := [\<lparr> message = ''file 1'', timestamp = 1, type = Progress \<rparr>] \<rparr>"

text \<open>
  A backend whose configuration file stays unreadable: every \<^verbatim>\<open>load_app_config\<close> is
  rejected with an invalid UTF-8 error and every \<^verbatim>\<open>debug_and_repair_config\<close> reports
  success. One round settles the pending load, then the repair it triggers.
\<close>

fun corrupt_rounds :: "nat \<Rightarrow> nat \<Rightarrow> component \<Rightarrow> component option" where
  "corrupt_rounds 0 now w = Some w"
| "corrupt_rounds (Suc n) now w =
     (case settle (latest w) (Rejected e_utf8) now w of
        None \<Rightarrow> None
      | Some w1 \<Rightarrow>
          (case settle (latest w1) (Resolved_config_result saved) now w1 of
             None \<Rightarrow> None
           | Some w2 \<Rightarrow> corrupt_rounds n now w2))"

section \<open>Auxiliary facts\<close>

lemma strip_leading_done:
  assumes "\<forall>p \<in> set pats. p \<noteq> []" and "length s \<le> n"
  shows "find (starts_with (strip_leading pats n s)) pats = None"
  using assms(2)
proof (induction n arbitrary: s)
  case 0
  then have "s = []" by simp
  moreover have "\<And>p. p \<in> set pats \<Longrightarrow> \<not> starts_with [] p"
    using assms(1) by (case_tac p) auto
  ultimately show ?case by (simp add: find_None_iff)
next
  case (Suc n)
  show ?case
  proof (cases "find (starts_with s) pats")
    case None
    then show ?thesis by simp
  next
    case (Some p)
    then have "p \<in> set pats" and sw: "starts_with s p"
      by (auto simp: find_Some_iff)
    then have "p \<noteq> []" using assms(1) by blast
    moreover have "s \<noteq> []" using sw \<open>p \<noteq> []\<close> by (cases s; cases p) auto
    ultimately have "length (drop (length p) s) \<le> n" using Suc.prems by (cases p) auto
    from Suc.IH[OF this] Some show ?thesis by simp
  qed
qed

lemma trimStart_done: "find (starts_with (trimStart s)) white_space = None"
  unfolding trimStart_def by (rule strip_leading_done) (simp_all add: white_space_def)

lemma slice_last_length: "length (slice_last n xs) \<le> n"
  by (simp add: slice_last_def)

lemma addLog_progressLogs:
  "progressLogs (addLog m t now w) =
     (if t = Progress \<and> progressLogs w \<noteq> [] \<and> type (last (progressLogs w)) = Progress
          \<and> message (last (progressLogs w)) = m
      then progressLogs w
      else slice_last 100 (progressLogs w @ [\<lparr> message = m, timestamp = now, type = t \<rparr>]))"
  by (simp add: addLog_def addPersistentLog_def invoke_def Let_def slice_last_def)

lemma addLog_bounded:
  "length (progressLogs w) \<le> 100 \<Longrightarrow> length (progressLogs (addLog m t now w)) \<le> 100"
  by (simp add: addLog_progressLogs slice_last_length)

lemma addLog_fields [simp]:
  "selectedFile (addLog m t now w) = selectedFile w"
  "pdfDirectory (addLog m t now w) = pdfDirectory w"
  "outputDirectory (addLog m t now w) = outputDirectory w"
  "verbose (addLog m t now w) = verbose w"
  "processing (addLog m t now w) = processing w"
  "processingResult (addLog m t now w) = processingResult w"
  "processingStatus (addLog m t now w) = processingStatus w"
  "currentSessionId (addLog m t now w) = currentSessionId w"
  "progressInterval (addLog m t now w) = progressInterval w"
  "totalProposals (addLog m t now w) = totalProposals w"
  "appConfig (addLog m t now w) = appConfig w"
  "configLoaded (addLog m t now w) = configLoaded w"
  "persistentLogs (addLog m t now w) = persistentLogs w"
  "isRepairingConfig (addLog m t now w) = isRepairingConfig w"
  "intervals (addLog m t now w) = intervals w"
  "nextHandle (addLog m t now w) = nextHandle w"
  "cleared (addLog m t now w) = cleared w"
  "scheduledRepairs (addLog m t now w) = scheduledRepairs w"
  by (simp_all add: addLog_def addPersistentLog_def invoke_def Let_def)

lemma invoke_fields [simp]:
  "progressLogs (invoke c p ks w) = progressLogs w"
  "processing (invoke c p ks w) = processing w"
  "progressInterval (invoke c p ks w) = progressInterval w"
  "isRepairingConfig (invoke c p ks w) = isRepairingConfig w"
  "intervals (invoke c p ks w) = intervals w"
  "cleared (invoke c p ks w) = cleared w"
  "currentSessionId (invoke c p ks w) = currentSessionId w"
  "invoked (invoke c p ks w) = invoked w @ [c]"
  "tasks (invoke c p ks w) = tasks w @ [(nextTask w, p, ks)]"
  "nextTask (invoke c p ks w) = Suc (nextTask w)"
  by (simp_all add: invoke_def)

lemma return_to_progressLogs [simp]: "progressLogs (return_to ks w) = progressLogs w"
  by (induction ks w rule: return_to.induct) (simp_all split: option.splits)

lemma stop_progressLogs [simp]: "progressLogs (stopProgressMonitoring w) = progressLogs w"
  by (simp add: stopProgressMonitoring_def split: option.splits)

lemma ring_bounded_addLog: "ring_bounded w \<Longrightarrow> ring_bounded (addLog m t now w)"
  by (simp add: ring_bounded_def addLog_bounded)

lemma ring_bounded_fold:
  "ring_bounded w \<Longrightarrow> (\<And>x v. ring_bounded v \<Longrightarrow> ring_bounded (f x v)) \<Longrightarrow> ring_bounded (fold f xs w)"
  by (induction xs arbitrary: w) simp_all

lemma ring_bounded_lines: "ring_bounded w \<Longrightarrow> ring_bounded (addLog_lines ls now w)"
  unfolding addLog_lines_def by (rule ring_bounded_fold) (simp_all add: ring_bounded_addLog)

lemma ring_bounded_upd [simp]:
  "ring_bounded (invoke c p ks w) = ring_bounded w"
  "ring_bounded (return_to ks w) = ring_bounded w"
  "ring_bounded (stopProgressMonitoring w) = ring_bounded w"
  by (simp_all add: ring_bounded_def)

lemma ring_bounded_load: "ring_bounded w \<Longrightarrow> on_load_app_config r ks now w = Some w' \<Longrightarrow> ring_bounded w'"
  by (auto simp: on_load_app_config_def repairConfiguration_def Let_def ring_bounded_def
        intro!: addLog_bounded split: response.splits if_splits)

lemma ring_bounded_repair: "ring_bounded w \<Longrightarrow> on_repair_config r ks now w = Some w' \<Longrightarrow> ring_bounded w'"
  by (auto simp: on_repair_config_def loadConfiguration_def Let_def
        intro!: ring_bounded_addLog ring_bounded_lines split: response.splits if_splits)

lemma ring_bounded_debug:
  "ring_bounded w \<Longrightarrow> on_debug_repair r ks now w = Some w' \<Longrightarrow> ring_bounded w'"
  by (auto simp: on_debug_repair_def loadConfiguration_def Let_def
        intro!: ring_bounded_addLog ring_bounded_lines split: response.splits if_splits)

lemma ring_bounded_flag [simp]: "ring_bounded (w\<lparr> isRepairingConfig := b \<rparr>) = ring_bounded w"
  "ring_bounded (w\<lparr> scheduledRepairs := n \<rparr>) = ring_bounded w"
  "ring_bounded (w\<lparr> tasks := ts \<rparr>) = ring_bounded w"
  "ring_bounded (w\<lparr> processingStatus := ps \<rparr>) = ring_bounded w"
  "ring_bounded (w\<lparr> processingResult := pr \<rparr>) = ring_bounded w"
  "ring_bounded (w\<lparr> totalProposals := tp \<rparr>) = ring_bounded w"
  "ring_bounded (w\<lparr> currentSessionId := cs \<rparr>) = ring_bounded w"
  "ring_bounded (w\<lparr> processing := pb \<rparr>) = ring_bounded w"
  "ring_bounded (w\<lparr> appConfig := ac \<rparr>) = ring_bounded w"
  "ring_bounded (w\<lparr> configLoaded := cl \<rparr>) = ring_bounded w"
  by (simp_all add: ring_bounded_def)

lemma ring_bounded_auto: "ring_bounded w \<Longrightarrow> on_auto_repair r ks now w = Some w' \<Longrightarrow> ring_bounded w'"
  by (auto simp: on_auto_repair_def Let_def
        intro!: ring_bounded_addLog ring_bounded_lines split: response.splits if_splits)

lemma ring_bounded_persist: "ring_bounded w \<Longrightarrow> on_add_config_log r ks now w = Some w' \<Longrightarrow> ring_bounded w'"
  by (auto simp: on_add_config_log_def loadConfiguration_def split: response.splits if_splits)

lemma ring_bounded_start: "ring_bounded w \<Longrightarrow> ring_bounded (startProgressMonitoring sid now w)"
  using addLog_bounded[of w msg_monitor_start Info now]
  by (simp add: startProgressMonitoring_def Let_def ring_bounded_def)

lemma ring_bounded_log_status: "ring_bounded w \<Longrightarrow> ring_bounded (log_status st now w)"
  unfolding log_status_def Let_def
  by (rule ring_bounded_fold) (simp_all add: ring_bounded_addLog split: option.splits)

lemma ring_bounded_status:
  assumes "ring_bounded w" and "on_status sid r now w = Some w'"
  shows "ring_bounded w'"
proof (cases r)
  case (Resolved_status st)
  have "ring_bounded (log_status st now (w\<lparr> processingStatus := Some st \<rparr>))"
    using assms(1) by (simp add: ring_bounded_log_status)
  then show ?thesis
    using assms(2) Resolved_status
    by (auto simp: on_status_def Let_def ring_bounded_addLog split: if_splits)
next
  case (Rejected e)
  then show ?thesis using assms by (auto simp: on_status_def)
qed (use assms in \<open>simp_all add: on_status_def\<close>)

lemma ring_bounded_clear: "ring_bounded w \<Longrightarrow> on_clear_state r w = Some w' \<Longrightarrow> ring_bounded w'"
  by (auto simp: on_clear_state_def split: response.splits)

lemma ring_bounded_json: "ring_bounded w \<Longrightarrow> ring_bounded (log_json_path res now w)"
  by (auto simp: log_json_path_def intro!: ring_bounded_addLog split: option.splits)

lemma ring_bounded_success: "ring_bounded w \<Longrightarrow> ring_bounded (log_success k res now w)"
  by (cases k) (simp_all add: ring_bounded_addLog ring_bounded_json)

lemma ring_bounded_submit: "ring_bounded w \<Longrightarrow> on_submit k r now w = Some w' \<Longrightarrow> ring_bounded w'"
  by (auto simp: on_submit_def submit_finally_def Let_def
        intro!: ring_bounded_addLog ring_bounded_success ring_bounded_start split: response.splits if_splits option.splits)

lemma ring_bounded_resume: "ring_bounded w \<Longrightarrow> resume p r ks now w = Some w' \<Longrightarrow> ring_bounded w'"
  by (cases p) (auto dest: ring_bounded_load ring_bounded_repair ring_bounded_auto ring_bounded_persist
       ring_bounded_status ring_bounded_clear ring_bounded_submit ring_bounded_debug)

lemma ring_bounded_settle: "ring_bounded w \<Longrightarrow> settle i r now w = Some w' \<Longrightarrow> ring_bounded w'"
  by (auto simp: settle_def split: option.splits dest!: ring_bounded_resume[rotated])

lemma ring_bounded_begin: "ring_bounded (begin_session now w)"
  by (simp add: begin_session_def ring_bounded_def)

lemma ring_bounded_submitted:
  "ring_bounded w \<Longrightarrow> ring_bounded (submitted (processFile now w))"
  "ring_bounded w \<Longrightarrow> ring_bounded (submitted (processDirectory now w))"
  "ring_bounded w \<Longrightarrow> ring_bounded (submitted (processFixedDirectory now w))"
  "ring_bounded w \<Longrightarrow> ring_bounded (submitted (processSinglePdfFile fi now w))"
  by (auto simp: submitted_def processFile_def processDirectory_def processFixedDirectory_def
        processSinglePdfFile_def Let_def intro!: ring_bounded_addLog ring_bounded_begin split: option.splits)

lemma ring_bounded_par: "ring_bounded w \<Longrightarrow> ring_bounded (performAutomaticRepair now w)"
  by (auto simp: performAutomaticRepair_def Let_def intro!: ring_bounded_addLog)

lemma ring_bounded_step: "ring_bounded w \<Longrightarrow> step now ev w = Some w' \<Longrightarrow> ring_bounded w'"
  by (cases ev)
     (auto simp: tick_def loadConfiguration_def repairConfiguration_def debugAndRepairConfig_def
        intro: ring_bounded_submitted ring_bounded_addLog ring_bounded_start ring_bounded_par
        dest: ring_bounded_settle split: option.splits if_splits)

lemma ring_bounded_run: "ring_bounded w \<Longrightarrow> run evs w = Some w' \<Longrightarrow> ring_bounded w'"
proof (induction evs arbitrary: w)
  case Nil
  then show ?case by simp
next
  case (Cons a evs)
  obtain now ev where a: "a = (now, ev)" by (cases a)
  from Cons.prems(2) a obtain w1 where s: "step now ev w = Some w1" and r: "run evs w1 = Some w'"
    by (auto split: option.splits)
  from ring_bounded_step[OF Cons.prems(1) s] Cons.IH r show ?case by blast
qed

lemma ring_bounded_initial: "ring_bounded initial"
  by (simp add: ring_bounded_def initial_def)

lemma submitting_addLog [simp]: "submitting (addLog m t now w) = submitting w"
  by (simp add: submitting_def addLog_def addPersistentLog_def invoke_def Let_def)

lemma submitting_invoke_submit [simp]:
  "submitting (invoke c (Await_submit k) ks w) = submitting w @ [nextTask w]"
  by (simp add: submitting_def invoke_def)

lemma submitting_begin [simp]: "submitting (begin_session now w) = submitting w"
  by (simp add: submitting_def begin_session_def)

lemma begin_fields [simp]:
  "processing (begin_session now w)" "currentSessionId (begin_session now w) = show_nat now"
  "progressLogs (begin_session now w) = []"
  by (simp_all add: begin_session_def)

lemma fold_keeps:
  assumes "\<And>x v. g (f x v) = g v"
  shows "g (fold f xs w) = g w"
  using assms by (induction xs arbitrary: w) simp_all

lemma log_status_fields [simp]:
  "progressInterval (log_status st now w) = progressInterval w"
  "cleared (log_status st now w) = cleared w"
  "intervals (log_status st now w) = intervals w"
  "processing (log_status st now w) = processing w"
  "isRepairingConfig (log_status st now w) = isRepairingConfig w"
  unfolding log_status_def Let_def
  by (simp_all add: fold_keeps split: option.splits)

lemma stop_fields [simp]:
  "invoked (stopProgressMonitoring w) = invoked w"
  "tasks (stopProgressMonitoring w) = tasks w"
  "nextTask (stopProgressMonitoring w) = nextTask w"
  "processing (stopProgressMonitoring w) = processing w"
  "processingStatus (stopProgressMonitoring w) = processingStatus w"
  "processingResult (stopProgressMonitoring w) = processingResult w"
  "currentSessionId (stopProgressMonitoring w) = currentSessionId w"
  "isRepairingConfig (stopProgressMonitoring w) = isRepairingConfig w"
  by (simp_all add: stopProgressMonitoring_def split: option.splits)

lemma stop_set: "progressInterval w = Some h \<Longrightarrow> h \<noteq> 0 \<Longrightarrow>
    progressInterval (stopProgressMonitoring w) = None
  \<and> cleared (stopProgressMonitoring w) = cleared w @ [h]
  \<and> intervals (stopProgressMonitoring w) = filter (\<lambda>(h', sid). h' \<noteq> h) (intervals w)"
  by (simp add: stopProgressMonitoring_def)

lemma stop_unset: "progressInterval w = None \<Longrightarrow> stopProgressMonitoring w = w"
  by (simp add: stopProgressMonitoring_def)

lemma on_status_terminal:
  "\<not> is_processing st \<Longrightarrow>
   on_status sid (Resolved_status st) now w =
     Some (invoke (Clear_processing_state sid) Await_clear_state []
            (addLog msg_tick_done Success now
              (stopProgressMonitoring (log_status st now (w\<lparr> processingStatus := Some st \<rparr>)))))"
  by (simp add: on_status_def Let_def)

lemma addLog_pushes: "t \<noteq> Progress \<Longrightarrow>
  progressLogs (addLog m t now w) = slice_last 100 (progressLogs w @ [\<lparr> message = m, timestamp = now, type = t \<rparr>])"
  by (simp add: addLog_progressLogs)

lemma starts_with_iff: "starts_with s sub \<longleftrightarrow> (\<exists>q. s = sub @ q)"
  by (induction s sub rule: starts_with.induct) auto

lemma str_includes_iff: "str_includes s sub \<longleftrightarrow> (\<exists>p q. s = p @ sub @ q)"
proof (induction s)
  case Nil
  then show ?case by auto
next
  case (Cons c cs)
  show ?case
  proof
    assume "str_includes (c # cs) sub"
    then consider "starts_with (c # cs) sub" | "str_includes cs sub" by auto
    then show "\<exists>p q. c # cs = p @ sub @ q"
    proof cases
      case 1
      then obtain q where "c # cs = sub @ q" using starts_with_iff by blast
      then have "c # cs = [] @ sub @ q" by simp
      then show ?thesis by blast
    next
      case 2
      then obtain p q where "cs = p @ sub @ q" using Cons.IH by blast
      then have "c # cs = (c # p) @ sub @ q" by simp
      then show ?thesis by blast
    qed
  next
    assume "\<exists>p q. c # cs = p @ sub @ q"
    then obtain p q where pq: "c # cs = p @ sub @ q" by blast
    show "str_includes (c # cs) sub"
    proof (cases p)
      case Nil
      with pq have "starts_with (c # cs) sub" using starts_with_iff by auto
      then show ?thesis by simp
    next
      case (Cons a p')
      with pq have "cs = p' @ sub @ q" by simp
      then have "str_includes cs sub" using Cons.IH by blast
      then show ?thesis by simp
    qed
  qed
qed

lemma str_includes_suffix_part: "str_includes s (a @ b) \<Longrightarrow> str_includes s b"
proof -
  assume "str_includes s (a @ b)"
  then obtain p q where "s = p @ (a @ b) @ q" using str_includes_iff by blast
  then have "s = (p @ a) @ b @ q" by simp
  then show ?thesis using str_includes_iff by blast
qed

lemma isUtf8Error_iff: "isUtf8Error e = indicates_invalid_encoding e"
proof -
  have "''stream did not contain valid UTF-8'' = ''stream did not contain valid '' @ ''UTF-8''"
    by simp
  then have "\<And>s. str_includes s ''stream did not contain valid UTF-8'' \<Longrightarrow> str_includes s ''UTF-8''"
    using str_includes_suffix_part by metis
  then show ?thesis
    by (auto simp: isUtf8Error_def indicates_invalid_encoding_def field_includes_def split: option.splits)
qed

lemma isDeserializationError_iff:
  "isDeserializationError e = (references_config_file e \<and> indicates_deserialization_failure e)"
  by (simp add: isDeserializationError_def references_config_file_def indicates_deserialization_failure_def)

lemma invoked_addLog:
  "invoked (addLog m t now w) = invoked w @
     (if t \<noteq> Progress \<and> \<not> isRepairingConfig w
      then [Add_config_log m t (if currentSessionId w = [] then None else Some (currentSessionId w))]
      else [])"
  by (simp add: addLog_def addPersistentLog_def invoke_def Let_def)

lemma return_to_invoked [simp]: "invoked (return_to ks w) = invoked w"
  by (induction ks w rule: return_to.induct) (simp_all split: option.splits)

lemma fresh_invoke: "fresh_ids w \<Longrightarrow> fresh_ids (invoke c p ks w)"
  by (auto simp: fresh_ids_def invoke_def)

lemma fresh_addLog: "fresh_ids w \<Longrightarrow> fresh_ids (addLog m t now w)"
  by (auto simp: addLog_def addPersistentLog_def Let_def fresh_ids_def invoke_def)

lemma fresh_fold:
  "fresh_ids w \<Longrightarrow> (\<And>x v. fresh_ids v \<Longrightarrow> fresh_ids (f x v)) \<Longrightarrow> fresh_ids (fold f xs w)"
  by (induction xs arbitrary: w) simp_all

lemma fresh_lines: "fresh_ids w \<Longrightarrow> fresh_ids (addLog_lines ls now w)"
  unfolding addLog_lines_def by (rule fresh_fold) (simp_all add: fresh_addLog)

lemma fresh_remove: "fresh_ids w \<Longrightarrow> fresh_ids (w\<lparr> tasks := filter P (tasks w) \<rparr>)"
  by (auto simp: fresh_ids_def distinct_map_filter)

lemma fresh_configLoaded [simp]: "fresh_ids (w\<lparr> configLoaded := b \<rparr>) = fresh_ids w"
  by (simp add: fresh_ids_def)

lemma fresh_lookup:
  assumes "fresh_ids w" and "tasks w \<noteq> []"
  shows "map_of (tasks w) (latest w) = Some (snd (last (tasks w)))"
proof -
  have "last (tasks w) \<in> set (tasks w)" using assms(2) by simp
  then have "(latest w, snd (last (tasks w))) \<in> set (tasks w)" by (simp add: latest_def)
  moreover have "distinct (map fst (tasks w))" using assms(1) by (simp add: fresh_ids_def)
  ultimately show ?thesis by simp
qed

lemma repairs_addLog [simp]: "repairs_invoked (addLog m t now w) = repairs_invoked w"
  by (simp add: repairs_invoked_def invoked_addLog)

lemma repairs_lines [simp]: "repairs_invoked (addLog_lines ls now w) = repairs_invoked w"
  unfolding addLog_lines_def by (rule fold_keeps) simp

lemma flag_lines [simp]: "isRepairingConfig (addLog_lines ls now w) = isRepairingConfig w"
  unfolding addLog_lines_def by (rule fold_keeps) simp

lemma repairs_upd [simp]:
  "repairs_invoked (w\<lparr> tasks := ts \<rparr>) = repairs_invoked w"
  "repairs_invoked (w\<lparr> configLoaded := b \<rparr>) = repairs_invoked w"
  "repairs_invoked (invoke Debug_and_repair_config p ks w) = Suc (repairs_invoked w)"
  "repairs_invoked (invoke Load_app_config p ks w) = repairs_invoked w"
  by (simp_all add: repairs_invoked_def)

lemma utf8_classified: "isUtf8Error e_utf8"
  by code_simp

lemma saved_success: "cr_success saved"
  by (simp add: saved_def)

lemma round_load:
  assumes "fresh_ids w" and "tasks w \<noteq> []"
      and "snd (last (tasks w)) = (Await_load_app_config, ks)"
  shows "\<exists>w1. settle (latest w) (Rejected e_utf8) now w = Some w1
           \<and> fresh_ids w1 \<and> tasks w1 \<noteq> []
           \<and> snd (last (tasks w1)) = (Await_repair_config, In_loadConfiguration # ks)
           \<and> repairs_invoked w1 = Suc (repairs_invoked w)
           \<and> isRepairingConfig w1 = isRepairingConfig w"
proof -
  define w0 where "w0 = w\<lparr> tasks := filter (\<lambda>t. fst t \<noteq> latest w) (tasks w) \<rparr>"
  define w1 where "w1 = repairConfiguration (In_loadConfiguration # ks) now
                          (addLog msg_load_utf8 Error now (w0\<lparr> configLoaded := False \<rparr>))"
  have f0: "fresh_ids w0" unfolding w0_def by (rule fresh_remove[OF assms(1)])
  have "settle (latest w) (Rejected e_utf8) now w = on_load_app_config (Rejected e_utf8) ks now w0"
    using fresh_lookup[OF assms(1,2)] assms(3) by (simp add: settle_def w0_def)
  also have "\<dots> = Some w1"
    using utf8_classified by (simp add: on_load_app_config_def w1_def Let_def)
  finally have s: "settle (latest w) (Rejected e_utf8) now w = Some w1" .
  have f1: "fresh_ids w1"
    unfolding w1_def repairConfiguration_def using f0
    by (simp add: fresh_invoke fresh_addLog)
  have t1: "tasks w1 \<noteq> [] \<and> snd (last (tasks w1)) = (Await_repair_config, In_loadConfiguration # ks)"
    by (simp add: w1_def repairConfiguration_def)
  have r1: "repairs_invoked w1 = Suc (repairs_invoked w)"
    by (simp add: w1_def repairConfiguration_def w0_def)
  have g1: "isRepairingConfig w1 = isRepairingConfig w"
    by (simp add: w1_def repairConfiguration_def w0_def)
  from s f1 t1 r1 g1 show ?thesis by blast
qed

lemma round_repair:
  assumes "fresh_ids w" and "tasks w \<noteq> []"
      and "snd (last (tasks w)) = (Await_repair_config, ks)"
  shows "\<exists>w1. settle (latest w) (Resolved_config_result saved) now w = Some w1
           \<and> fresh_ids w1 \<and> tasks w1 \<noteq> []
           \<and> snd (last (tasks w1)) = (Await_load_app_config, In_repairConfiguration # ks)
           \<and> repairs_invoked w1 = repairs_invoked w
           \<and> isRepairingConfig w1 = isRepairingConfig w"
proof -
  define w0 where "w0 = w\<lparr> tasks := filter (\<lambda>t. fst t \<noteq> latest w) (tasks w) \<rparr>"
  define w1 where "w1 = loadConfiguration (In_repairConfiguration # ks)
                          (addLog_lines (split_lines (cr_message saved)) now
                            (addLog msg_repair_ok Success now w0))"
  have f0: "fresh_ids w0" unfolding w0_def by (rule fresh_remove[OF assms(1)])
  have "settle (latest w) (Resolved_config_result saved) now w
          = on_repair_config (Resolved_config_result saved) ks now w0"
    using fresh_lookup[OF assms(1,2)] assms(3) by (simp add: settle_def w0_def)
  also have "\<dots> = Some w1"
    using saved_success by (simp add: on_repair_config_def w1_def Let_def)
  finally have s: "settle (latest w) (Resolved_config_result saved) now w = Some w1" .
  have f1: "fresh_ids w1"
    unfolding w1_def loadConfiguration_def using f0
    by (simp add: fresh_invoke fresh_addLog fresh_lines)
  have t1: "tasks w1 \<noteq> [] \<and> snd (last (tasks w1)) = (Await_load_app_config, In_repairConfiguration # ks)"
    by (simp add: w1_def loadConfiguration_def)
  have r1: "repairs_invoked w1 = repairs_invoked w"
    by (simp add: w1_def loadConfiguration_def w0_def)
  have g1: "isRepairingConfig w1 = isRepairingConfig w"
    by (simp add: w1_def loadConfiguration_def w0_def)
  from s f1 t1 r1 g1 show ?thesis by blast
qed

lemma rounds:
  assumes "fresh_ids w" and "tasks w \<noteq> []"
      and "snd (last (tasks w)) = (Await_load_app_config, ks)"
  shows "\<exists>w' ks'. corrupt_rounds n now w = Some w'
           \<and> fresh_ids w' \<and> tasks w' \<noteq> []
           \<and> snd (last (tasks w')) = (Await_load_app_config, ks')
           \<and> length ks' = length ks + 2 * n
           \<and> repairs_invoked w' = repairs_invoked w + n
           \<and> isRepairingConfig w' = isRepairingConfig w"
  using assms
proof (induction n arbitrary: w ks)
  case 0
  then show ?case by simp
next
  case (Suc n)
  from round_load[OF Suc.prems, of now] obtain w1 where
    s1: "settle (latest w) (Rejected e_utf8) now w = Some w1" and
    f1: "fresh_ids w1" and t1: "tasks w1 \<noteq> []" and
    l1: "snd (last (tasks w1)) = (Await_repair_config, In_loadConfiguration # ks)" and
    r1: "repairs_invoked w1 = Suc (repairs_invoked w)" and
    g1: "isRepairingConfig w1 = isRepairingConfig w"
    by blast
  from round_repair[OF f1 t1 l1, of now] obtain w2 where
    s2: "settle (latest w1) (Resolved_config_result saved) now w1 = Some w2" and
    f2: "fresh_ids w2" and t2: "tasks w2 \<noteq> []" and
    l2: "snd (last (tasks w2)) = (Await_load_app_config, In_repairConfiguration # In_loadConfiguration # ks)" and
    r2: "repairs_invoked w2 = repairs_invoked w1" and
    g2: "isRepairingConfig w2 = isRepairingConfig w1"
    by blast
  from Suc.IH[OF f2 t2 l2] obtain w' ks' where
    c: "corrupt_rounds n now w2 = Some w'" and
    p: "fresh_ids w'" "tasks w' \<noteq> []" "snd (last (tasks w')) = (Await_load_app_config, ks')"
       "length ks' = length (In_repairConfiguration # In_loadConfiguration # ks) + 2 * n"
       "repairs_invoked w' = repairs_invoked w2 + n"
       "isRepairingConfig w' = isRepairingConfig w2"
    by blast
  have "corrupt_rounds (Suc n) now w = Some w'" using s1 s2 c by simp
  moreover have "length ks' = length ks + 2 * Suc n" using p(4) by simp
  moreover have "repairs_invoked w' = repairs_invoked w + Suc n" using p(5) r1 r2 by simp
  moreover have "isRepairingConfig w' = isRepairingConfig w" using p(6) g1 g2 by simp
  ultimately show ?case using p(1,2,3) by blast
qed

section \<open>Timers and the submit operations\<close>

lemma no_timer_addLog [simp]: "no_timer (addLog m t now w) = no_timer w"
  by (simp add: no_timer_def)

lemma no_timer_invoke [simp]: "no_timer (invoke c p ks w) = no_timer w"
  by (simp add: no_timer_def invoke_def)

lemma no_timer_return_to [simp]: "no_timer (return_to ks w) = no_timer w"
  by (induction ks w rule: return_to.induct) (simp_all add: no_timer_def split: option.splits)

lemma no_timer_lines [simp]: "no_timer (addLog_lines ls now w) = no_timer w"
  unfolding addLog_lines_def by (rule fold_keeps) simp

lemma no_timer_log_status [simp]: "no_timer (log_status st now w) = no_timer w"
  unfolding log_status_def Let_def by (simp add: fold_keeps split: option.splits)

lemma no_timer_upd [simp]:
  "no_timer (w\<lparr> isRepairingConfig := b \<rparr>) = no_timer w"
  "no_timer (w\<lparr> scheduledRepairs := n \<rparr>) = no_timer w"
  "no_timer (w\<lparr> tasks := ts \<rparr>) = no_timer w"
  "no_timer (w\<lparr> processingStatus := ps \<rparr>) = no_timer w"
  "no_timer (w\<lparr> processingResult := pr \<rparr>) = no_timer w"
  "no_timer (w\<lparr> totalProposals := tp \<rparr>) = no_timer w"
  "no_timer (w\<lparr> currentSessionId := cs \<rparr>) = no_timer w"
  "no_timer (w\<lparr> processing := pb \<rparr>) = no_timer w"
  "no_timer (w\<lparr> appConfig := ac \<rparr>) = no_timer w"
  "no_timer (w\<lparr> configLoaded := cl \<rparr>) = no_timer w"
  "no_timer (begin_session now w) = no_timer w"
  by (simp_all add: no_timer_def begin_session_def)

lemma no_timer_stop [simp]: "no_timer w \<Longrightarrow> stopProgressMonitoring w = w"
  by (simp add: no_timer_def stopProgressMonitoring_def)

lemma no_timer_json [simp]: "no_timer (log_json_path res now w) = no_timer w"
  by (simp add: log_json_path_def split: option.splits)

lemma no_timer_success [simp]: "no_timer (log_success k res now w) = no_timer w"
  by (cases k) simp_all

lemma timer_fields_json [simp]:
  "intervals (log_json_path res now w) = intervals w"
  "progressInterval (log_json_path res now w) = progressInterval w"
  "nextHandle (log_json_path res now w) = nextHandle w"
  by (simp_all add: log_json_path_def split: option.splits)

lemma timer_fields_success [simp]:
  "intervals (log_success k res now w) = intervals w"
  "progressInterval (log_success k res now w) = progressInterval w"
  "nextHandle (log_success k res now w) = nextHandle w"
  by (cases k; simp)+

lemma no_timer_submit:
  assumes "no_timer w" and "on_submit k r now w = Some w'"
  shows "no_timer w'"
proof (cases r)
  case (Resolved_processing res)
  then show ?thesis
    using assms
    by (auto simp: on_submit_def submit_finally_def Let_def no_timer_def
          startProgressMonitoring_def stopProgressMonitoring_def
          split: option.splits if_splits)
next
  case (Rejected e)
  then show ?thesis
    using assms by (auto simp: on_submit_def submit_finally_def Let_def)
qed (use assms in \<open>simp_all add: on_submit_def\<close>)

lemma no_timer_resume:
  assumes "no_timer w" and "resume p r ks now w = Some w'"
  shows "no_timer w'"
proof (cases p)
  case Await_load_app_config
  then show ?thesis using assms
    by (auto simp: on_load_app_config_def repairConfiguration_def Let_def split: response.splits if_splits)
next
  case Await_repair_config
  then show ?thesis using assms
    by (auto simp: on_repair_config_def loadConfiguration_def Let_def split: response.splits if_splits)
next
  case Await_auto_repair
  then show ?thesis using assms
    by (auto simp: on_auto_repair_def Let_def split: response.splits if_splits)
next
  case Await_debug_repair
  then show ?thesis using assms
    by (auto simp: on_debug_repair_def loadConfiguration_def Let_def split: response.splits if_splits)
next
  case Await_add_config_log
  then show ?thesis using assms
    by (auto simp: on_add_config_log_def loadConfiguration_def split: response.splits if_splits)
next
  case (Await_status sid)
  then show ?thesis using assms
    by (auto simp: on_status_def Let_def split: response.splits if_splits)
next
  case Await_clear_state
  then show ?thesis using assms
    by (auto simp: on_clear_state_def split: response.splits)
next
  case (Await_submit k)
  then show ?thesis using assms no_timer_submit by auto
qed

lemma no_timer_submitted [simp]:
  "no_timer (submitted (processFile now w)) = no_timer w"
  "no_timer (submitted (processDirectory now w)) = no_timer w"
  "no_timer (submitted (processFixedDirectory now w)) = no_timer w"
  "no_timer (submitted (processSinglePdfFile fi now w)) = no_timer w"
  by (simp_all add: submitted_def processFile_def processDirectory_def
        processFixedDirectory_def processSinglePdfFile_def Let_def split: option.splits)

lemma no_timer_par [simp]: "no_timer (performAutomaticRepair now w) = no_timer w"
  by (simp add: performAutomaticRepair_def Let_def)

lemma no_timer_step:
  assumes "no_timer w" and "step now ev w = Some w'" and "\<not> starts_timer (now, ev)"
  shows "no_timer w'"
proof (cases ev)
  case (Settle i r)
  then show ?thesis using assms
    by (auto simp: settle_def split: option.splits dest!: no_timer_resume[rotated])
next
  case (Interval_fires h)
  then show ?thesis using assms by (simp add: no_timer_def)
next
  case Timeout_fires
  then show ?thesis using assms by (auto split: if_splits)
next
  case Call_processFile
  then show ?thesis using assms by auto
next
  case Call_processDirectory
  then show ?thesis using assms by auto
next
  case Call_processFixedDirectory
  then show ?thesis using assms by auto
next
  case (Call_processSinglePdfFile fi)
  then show ?thesis using assms by auto
next
  case Call_loadConfiguration
  then show ?thesis using assms by (auto simp: loadConfiguration_def)
next
  case Call_repairConfiguration
  then show ?thesis using assms by (auto simp: repairConfiguration_def)
next
  case Call_performAutomaticRepair
  then show ?thesis using assms by auto
next
  case Call_debugAndRepairConfig
  then show ?thesis using assms by (auto simp: debugAndRepairConfig_def)
next
  case (Call_addLog m t)
  then show ?thesis using assms by auto
next
  case (Call_startProgressMonitoring sid)
  then show ?thesis using assms by (simp add: starts_timer_def)
next
  case Call_ngOnDestroy
  then show ?thesis using assms by auto
qed

lemma no_timer_run:
  assumes "no_timer w" and "run evs w = Some w'" and "\<forall>x \<in> set evs. \<not> starts_timer x"
  shows "no_timer w'"
  using assms
proof (induction evs arbitrary: w)
  case Nil
  then show ?case by simp
next
  case (Cons a evs)
  obtain now ev where a: "a = (now, ev)" by (cases a)
  from Cons.prems(2) a obtain w1 where s: "step now ev w = Some w1" and r: "run evs w1 = Some w'"
    by (auto split: option.splits)
  have "no_timer w1" using no_timer_step[OF Cons.prems(1) s] Cons.prems(3) a by simp
  then show ?case using Cons.IH r Cons.prems(3) by simp
qed

text \<open>
  Every submit operation that starts the timer stops it again in its \<^verbatim>\<open>finally\<close> block,
  in the same turn of the event loop. So unless \<^verbatim>\<open>startProgressMonitoring\<close> is called
  on its own, no timer is alive between two events and the timer callback never runs.
\<close>

lemma timer_never_alive_between_events:
  assumes "run evs initial = Some w" and "\<forall>x \<in> set evs. \<not> starts_timer x"
  shows "intervals w = [] \<and> progressInterval w = None
       \<and> (\<forall>now h. step now (Interval_fires h) w = None)"
proof -
  have "no_timer initial" by (simp add: no_timer_def initial_def)
  from no_timer_run[OF this assms] show ?thesis by (simp add: no_timer_def)
qed

section \<open>Single-flight submission\<close>

text \<open>
  Claim C1, as the code has it. No submit operation checks \<open>processing\<close>: each of
  \<^verbatim>\<open>processFile\<close>, \<^verbatim>\<open>processDirectory\<close>, \<^verbatim>\<open>processFixedDirectory\<close> and
  \<^verbatim>\<open>processSinglePdfFile\<close> is rejected only for a missing path (\<open>InvalidSpec\<close>), never with
  \<open>AlreadyRunning\<close>, and then leaves the sessions in flight as they are; otherwise it starts a
  session whatever the state: it sets \<open>processing\<close>, takes a fresh provisional session
  identifier and adds one worker call to those in flight.
\<close>

theorem submit_never_already_running:
  assumes "r = processFile now w \<or> r = processDirectory now w
         \<or> r = processFixedDirectory now w \<or> r = processSinglePdfFile fi now w"
  shows "(case r of
            Inl (e, w') \<Rightarrow> e = InvalidSpec \<and> submitting w' = submitting w \<and> processing w' = processing w
          | Inr w' \<Rightarrow> processing w' \<and> currentSessionId w' = show_nat now
                       \<and> length (submitting w') = Suc (length (submitting w)))
       \<and> isl (processFile now w) = (selectedFile w = [] \<or> outputDirectory w = [])
       \<and> isl (processDirectory now w) = (pdfDirectory w = [] \<or> outputDirectory w = [])
       \<and> isl (processFixedDirectory now w) = False
       \<and> isl (processSinglePdfFile fi now w) = (fi = None \<or> outputDirectory w = [])"
  using assms
  by (auto simp: processFile_def processDirectory_def processFixedDirectory_def
        processSinglePdfFile_def Let_def split: option.splits)

text \<open>The theorem at a second \<^verbatim>\<open>processFile\<close> issued while the first is in flight.\<close>

theorem submit_never_already_running_witness:
  "processing w_active \<and> length (submitting w_active) = 1
   \<and> \<not> isl (processFile 2 w_active)
   \<and> map_option processing (run [(2, Call_processFile)] w_active) = Some True
   \<and> map_option currentSessionId (run [(2, Call_processFile)] w_active) = Some ''2''
   \<and> map_option (length \<circ> submitting) (run [(2, Call_processFile)] w_active) = Some 2"
proof -
  have a1: "processing w_active" by code_simp
  have a2: "length (submitting w_active) = 1" by code_simp
  have a3: "selectedFile w_active \<noteq> []" by code_simp
  have a4: "outputDirectory w_active \<noteq> []" by code_simp
  note a = a1 a2 a3 a4
  have s: "show_nat 2 = ''2''" by (simp add: digit_char_def)
  obtain w' where w': "processFile 2 w_active = Inr w'"
    using a(3,4) by (simp add: processFile_def Let_def)
  from submit_never_already_running[of "processFile 2 w_active" 2 w_active None] w' a s
  show ?thesis by (simp add: submitted_def)
qed

text \<open>
  The claim fails as stated: with one \<^verbatim>\<open>processFile\<close> in flight (task 1), a second
  \<^verbatim>\<open>processFile\<close> is accepted and two sessions are in flight (tasks 1 and 3).
\<close>

theorem second_submit_starts_second_session:
  "processing w_active \<and> submitting w_active = [1]
   \<and> \<not> isl (processFile 2 w_active)
   \<and> map_option submitting (run [(2, Call_processFile)] w_active) = Some [1, 3]"
  by (simp add: w_active_def w_ready_def initial_def processFile_def submitted_def Let_def
        begin_session_def addLog_def addPersistentLog_def invoke_def submitting_def)

section \<open>Stopping the polling timer\<close>

text \<open>
  Claim C2, as the code has it. When a terminal status (\<open>is_processing\<close> false) is observed
  while the timer handle is set, the handle is cleared and nulled; a second terminal
  observation does not clear it again. Each of the two observations, however, pushes its
  own completion entry onto the transient log and issues its own
  \<^verbatim>\<open>clear_processing_state\<close> call: only \<^verbatim>\<open>clearInterval\<close> is guarded by the handle.
\<close>

theorem terminal_status_clears_once_logs_each_time:
  assumes "\<not> is_processing st1" and "\<not> is_processing st2"
      and "progressInterval w = Some h" and "h \<noteq> 0"
  shows "\<exists>w1 w2.
           on_status sid (Resolved_status st1) t1 w = Some w1
         \<and> on_status sid (Resolved_status st2) t2 w1 = Some w2
         \<and> progressInterval w1 = None \<and> cleared w1 = cleared w @ [h]
         \<and> progressInterval w2 = None \<and> cleared w2 = cleared w1
         \<and> progressLogs w1 =
             slice_last 100 (progressLogs (log_status st1 t1 (w\<lparr> processingStatus := Some st1 \<rparr>))
                              @ [\<lparr> message = msg_tick_done, timestamp = t1, type = Success \<rparr>])
         \<and> progressLogs w2 =
             slice_last 100 (progressLogs (log_status st2 t2 (w1\<lparr> processingStatus := Some st2 \<rparr>))
                              @ [\<lparr> message = msg_tick_done, timestamp = t2, type = Success \<rparr>])
         \<and> last (invoked w1) = Clear_processing_state sid
         \<and> last (invoked w2) = Clear_processing_state sid"
proof -
  define v1 where "v1 = log_status st1 t1 (w\<lparr> processingStatus := Some st1 \<rparr>)"
  define w1 where "w1 = invoke (Clear_processing_state sid) Await_clear_state []
                          (addLog msg_tick_done Success t1 (stopProgressMonitoring v1))"
  define v2 where "v2 = log_status st2 t2 (w1\<lparr> processingStatus := Some st2 \<rparr>)"
  define w2 where "w2 = invoke (Clear_processing_state sid) Await_clear_state []
                          (addLog msg_tick_done Success t2 (stopProgressMonitoring v2))"
  have s1: "on_status sid (Resolved_status st1) t1 w = Some w1"
    using assms(1) by (simp add: on_status_terminal w1_def v1_def)
  have s2: "on_status sid (Resolved_status st2) t2 w1 = Some w2"
    using assms(2) by (simp add: on_status_terminal w2_def v2_def)
  have h1: "progressInterval v1 = Some h" using assms(3) by (simp add: v1_def)
  have c1: "progressInterval w1 = None \<and> cleared w1 = cleared w @ [h]"
    using stop_set[OF h1 assms(4)] by (simp add: w1_def v1_def)
  have h2: "progressInterval v2 = None" using c1 by (simp add: v2_def)
  have c2: "progressInterval w2 = None \<and> cleared w2 = cleared w1"
    using stop_unset[OF h2] h2 by (simp add: w2_def) (simp add: v2_def)
  have l1: "progressLogs w1 =
      slice_last 100 (progressLogs v1 @ [\<lparr> message = msg_tick_done, timestamp = t1, type = Success \<rparr>])"
    by (simp add: w1_def addLog_pushes)
  have l2: "progressLogs w2 =
      slice_last 100 (progressLogs v2 @ [\<lparr> message = msg_tick_done, timestamp = t2, type = Success \<rparr>])"
    by (simp add: w2_def addLog_pushes)
  have i: "last (invoked w1) = Clear_processing_state sid"
          "last (invoked w2) = Clear_processing_state sid"
    by (simp_all add: w1_def w2_def)
  from s1 s2 c1 c2 l1 l2 i show ?thesis
    unfolding v1_def v2_def by blast
qed

text \<open>The theorem at a running timer (handle 1) whose two status calls both report the end.\<close>

theorem terminal_status_clears_once_logs_each_time_witness:
  "\<not> is_processing done_status \<and> progressInterval w_polling = Some 1 \<and> (1::nat) \<noteq> 0
   \<and> (\<exists>w1 w2.
           on_status ''s1'' (Resolved_status done_status) 4 w_polling = Some w1
         \<and> on_status ''s1'' (Resolved_status done_status) 5 w1 = Some w2
         \<and> progressInterval w1 = None \<and> cleared w1 = cleared w_polling @ [1]
         \<and> progressInterval w2 = None \<and> cleared w2 = cleared w1
         \<and> last (invoked w1) = Clear_processing_state ''s1''
         \<and> last (invoked w2) = Clear_processing_state ''s1'')"
proof -
  have a: "\<not> is_processing done_status" by (simp add: done_status_def)
  have b: "progressInterval w_polling = Some 1"
    by (simp add: w_polling_def tick_def startProgressMonitoring_def Let_def initial_def)
  have c: "(1::nat) \<noteq> 0" by simp
  from terminal_status_clears_once_logs_each_time[OF a a b c, of "''s1''" 4 5] a b c
  show ?thesis by blast
qed

text \<open>
  The claim fails as stated: a timer is started for session \<open>s1\<close> and fires twice before
  the first status arrives; both status calls then report the end. \<^verbatim>\<open>clearInterval\<close> is
  called once, and completion is logged twice.
\<close>

theorem duplicate_tick_logs_completion_twice:
  "map_option cleared
     (run [(1, Call_startProgressMonitoring ''s1''), (2, Interval_fires 1), (3, Interval_fires 1),
           (4, Settle 1 (Resolved_status done_status)),
           (5, Settle 2 (Resolved_status done_status))] initial) = Some [1]
   \<and> map_option completions
     (run [(1, Call_startProgressMonitoring ''s1''), (2, Interval_fires 1), (3, Interval_fires 1),
           (4, Settle 1 (Resolved_status done_status)),
           (5, Settle 2 (Resolved_status done_status))] initial) = Some 2
   \<and> map_option log_kinds
     (run [(1, Call_startProgressMonitoring ''s1''), (2, Interval_fires 1), (3, Interval_fires 1),
           (4, Settle 1 (Resolved_status done_status)),
           (5, Settle 2 (Resolved_status done_status))] initial) = Some [Info, Success, Success]"
  by code_simp

section \<open>Failures while mirroring a log entry\<close>

text \<open>
  Claim C3 at a failing input. The entry \<open>started\<close> is appended and mirrored:
  \<^verbatim>\<open>add_config_log\<close> succeeds, and the reload of the configuration that
  \<^verbatim>\<open>addPersistentLog\<close> then awaits is rejected with a plain I/O error. The handler of
  \<^verbatim>\<open>loadConfiguration\<close> appends an entry of kind \<open>Error\<close>, which is mirrored in turn;
  when the reload of that mirroring fails as well, a second \<open>Error\<close> entry follows, and a
  third mirroring is pending.
\<close>

theorem reload_failure_appends_error_again:
  "map_option log_kinds
     (run [(1, Call_addLog ''started'' Info),
           (2, Settle 0 (Resolved_config_result saved)),
           (3, Settle 1 (Rejected e_io)),
           (4, Settle 2 (Resolved_config_result saved)),
           (5, Settle 3 (Rejected e_io))] initial) = Some [Info, Error, Error]
   \<and> map_option invoked
     (run [(1, Call_addLog ''started'' Info),
           (2, Settle 0 (Resolved_config_result saved)),
           (3, Settle 1 (Rejected e_io)),
           (4, Settle 2 (Resolved_config_result saved)),
           (5, Settle 3 (Rejected e_io))] initial)
     = Some [Add_config_log ''started'' Info None, Load_app_config,
             Add_config_log (msg_load_error @ ''disk full'') Error None, Load_app_config,
             Add_config_log (msg_load_error @ ''disk full'') Error None]
   \<and> map_option tasks
     (run [(1, Call_addLog ''started'' Info),
           (2, Settle 0 (Resolved_config_result saved)),
           (3, Settle 1 (Rejected e_io)),
           (4, Settle 2 (Resolved_config_result saved)),
           (5, Settle 3 (Rejected e_io))] initial) = Some [(4, Await_add_config_log, [])]"
  by code_simp

section \<open>Repair while a repair is in progress\<close>

text \<open>
  Claim C4 at a failing input. \<^verbatim>\<open>performAutomaticRepair\<close> is called in the initial
  state: it sets \<open>isRepairingConfig\<close> and awaits \<^verbatim>\<open>debug_and_repair_config\<close>. While that
  call is pending, a \<^verbatim>\<open>loadConfiguration\<close> is rejected with an invalid UTF-8 error; its
  handler awaits \<^verbatim>\<open>repairConfiguration\<close>, which invokes \<^verbatim>\<open>debug_and_repair_config\<close> a
  second time with the flag still set. So does every direct call of
  \<^verbatim>\<open>repairConfiguration\<close> or \<^verbatim>\<open>debugAndRepairConfig\<close> in a state with the flag set:
  neither method reads the flag.
\<close>

theorem unguarded_repair_while_in_progress:
  "map_option isRepairingConfig
     (run [(1, Call_performAutomaticRepair), (2, Call_loadConfiguration),
           (3, Settle 1 (Rejected e_utf8))] initial) = Some True
   \<and> map_option invoked
     (run [(1, Call_performAutomaticRepair), (2, Call_loadConfiguration),
           (3, Settle 1 (Rejected e_utf8))] initial)
     = Some [Debug_and_repair_config, Load_app_config, Debug_and_repair_config]
   \<and> isRepairingConfig w_repairing
   \<and> map_option repairs_invoked (run [(7, Call_repairConfiguration)] w_repairing) = Some 1
   \<and> map_option repairs_invoked (run [(7, Call_debugAndRepairConfig)] w_repairing) = Some 1"
  by code_simp

text \<open>
  Only \<^verbatim>\<open>performAutomaticRepair\<close> is behind the flag: called with the flag set it leaves
  the whole state as it is, so it invokes no command and logs nothing.
\<close>

lemma performAutomaticRepair_guarded:
  assumes "isRepairingConfig w"
  shows "performAutomaticRepair now w = w
       \<and> step now Call_performAutomaticRepair w = Some w"
  using assms by (simp add: performAutomaticRepair_def)

section \<open>Repair after a failed load\<close>

text \<open>
  Claim C5 at a failing input. \<^verbatim>\<open>loadConfiguration\<close> is called in the initial state and
  the backend keeps rejecting \<^verbatim>\<open>load_app_config\<close> with an invalid UTF-8 error while
  reporting every repair as successful. After \<open>n\<close> rounds \<^verbatim>\<open>debug_and_repair_config\<close> has
  been invoked \<open>n\<close> times, \<open>isRepairingConfig\<close> is still unset, and a further load is
  pending below \<open>2 * n\<close> nested callers: the load handler awaits \<^verbatim>\<open>repairConfiguration\<close>,
  which reloads, without any bound and without the flag.
\<close>

theorem repair_loop_unbounded:
  "\<exists>w' ks. corrupt_rounds n now (loadConfiguration [] initial) = Some w'
      \<and> repairs_invoked w' = n
      \<and> \<not> isRepairingConfig w'
      \<and> snd (last (tasks w')) = (Await_load_app_config, ks)
      \<and> length ks = 2 * n"
proof -
  let ?w = "loadConfiguration [] initial"
  have f: "fresh_ids ?w"
    by (simp add: loadConfiguration_def fresh_ids_def invoke_def initial_def)
  have t: "tasks ?w \<noteq> []" by (simp add: loadConfiguration_def)
  have l: "snd (last (tasks ?w)) = (Await_load_app_config, [])"
    by (simp add: loadConfiguration_def)
  have r: "repairs_invoked ?w = 0"
    by (simp add: loadConfiguration_def repairs_invoked_def initial_def invoke_def)
  have g: "\<not> isRepairingConfig ?w" by (simp add: loadConfiguration_def initial_def)
  from rounds[OF f t l, of n now] r g show ?thesis by auto
qed

text \<open>
  The two halves of the claim that the code does keep: when the load retried after the
  repair succeeds, the chain ends after one repair with the configuration loaded (only
  the mirrorings of its log entries are still pending); and a repair that reports failure
  is not retried.
\<close>

lemma retried_load_success_ends_the_repair:
  "map_option repairs_invoked
     (run [(1, Call_loadConfiguration), (2, Settle 0 (Rejected e_utf8)),
           (3, Settle 3 (Resolved_config_result saved)),
           (4, Settle 6 (Resolved_config default_config))] initial) = Some 1
   \<and> map_option configLoaded
     (run [(1, Call_loadConfiguration), (2, Settle 0 (Rejected e_utf8)),
           (3, Settle 3 (Resolved_config_result saved)),
           (4, Settle 6 (Resolved_config default_config))] initial) = Some True
   \<and> map_option (map (fst \<circ> snd) \<circ> tasks)
     (run [(1, Call_loadConfiguration), (2, Settle 0 (Rejected e_utf8)),
           (3, Settle 3 (Resolved_config_result saved)),
           (4, Settle 6 (Resolved_config default_config))] initial)
     = Some [Await_add_config_log, Await_add_config_log, Await_add_config_log, Await_add_config_log]"
  by code_simp

lemma failed_repair_is_not_retried:
  "map_option repairs_invoked
     (run [(1, Call_loadConfiguration), (2, Settle 0 (Rejected e_utf8)),
           (3, Settle 3 (Resolved_config_result failed_repair))] initial) = Some 1
   \<and> map_option (map (fst \<circ> snd) \<circ> tasks)
     (run [(1, Call_loadConfiguration), (2, Settle 0 (Rejected e_utf8)),
           (3, Settle 3 (Resolved_config_result failed_repair))] initial)
     = Some [Await_add_config_log, Await_add_config_log, Await_add_config_log]"
  by code_simp

section \<open>Classification of configuration errors\<close>

text \<open>
  Claim C6, as the code has it. When \<^verbatim>\<open>load_app_config\<close> is rejected with \<open>e\<close>,
  \<^verbatim>\<open>loadConfiguration\<close> invokes \<^verbatim>\<open>debug_and_repair_config\<close> if and only if the message
  of \<open>e\<close> mentions UTF-8 (whether or not the configuration file is referenced) or \<open>e\<close>
  references the configuration file and its message indicates a deserialization failure.
  \<^verbatim>\<open>initializeConfiguration\<close> classifies \<open>e\<close> as a configuration error when any one of
  the three indicators is present. Every error that the specification calls a corruption
  signature is classified as one by both.
\<close>

theorem load_failure_classification:
  "(\<exists>w' new. on_load_app_config (Rejected e) ks now w = Some w'
        \<and> invoked w' = invoked w @ new
        \<and> (Debug_and_repair_config \<in> set new) =
            (indicates_invalid_encoding e
             \<or> (references_config_file e \<and> indicates_deserialization_failure e)))
   \<and> isConfigError e =
        (references_config_file e \<or> indicates_invalid_encoding e \<or> indicates_deserialization_failure e)
   \<and> (spec_is_corruption e \<longrightarrow> (isUtf8Error e \<or> isDeserializationError e) \<and> isConfigError e)"
proof -
  have a: "\<exists>w' new. on_load_app_config (Rejected e) ks now w = Some w'
        \<and> invoked w' = invoked w @ new
        \<and> (Debug_and_repair_config \<in> set new) =
            (indicates_invalid_encoding e
             \<or> (references_config_file e \<and> indicates_deserialization_failure e))"
  proof (cases "isUtf8Error e \<or> isDeserializationError e")
    case True
    then show ?thesis
      using isUtf8Error_iff[of e] isDeserializationError_iff[of e]
      by (auto simp: on_load_app_config_def repairConfiguration_def Let_def invoked_addLog)
  next
    case False
    then show ?thesis
      using isUtf8Error_iff[of e] isDeserializationError_iff[of e]
      by (auto simp: on_load_app_config_def Let_def invoked_addLog)
  qed
  have b: "isConfigError e =
        (references_config_file e \<or> indicates_invalid_encoding e \<or> indicates_deserialization_failure e)"
    by (auto simp: isConfigError_def references_config_file_def indicates_invalid_encoding_def
          indicates_deserialization_failure_def)
  have c: "spec_is_corruption e \<longrightarrow> (isUtf8Error e \<or> isDeserializationError e) \<and> isConfigError e"
    using b by (auto simp: spec_is_corruption_def isUtf8Error_iff isDeserializationError_iff)
  from a b c show ?thesis by blast
qed

text \<open>The theorem at an error that names the configuration file and reports trailing
  characters.\<close>

theorem load_failure_classification_witness:
  "spec_is_corruption e_corrupt
   \<and> (isUtf8Error e_corrupt \<or> isDeserializationError e_corrupt)
   \<and> isConfigError e_corrupt"
proof -
  have a: "spec_is_corruption e_corrupt" by code_simp
  from load_failure_classification[of e_corrupt "[]" 1 initial] a show ?thesis by blast
qed

text \<open>
  The claim fails as stated: an invalid UTF-8 error that does not reference the
  configuration file is not a corruption signature in the specification's sense, yet the
  failed load invokes the repair.
\<close>

theorem utf8_without_file_is_repaired:
  "\<not> spec_is_corruption e_utf8
   \<and> map_option repairs_invoked
       (run [(1, Call_loadConfiguration), (2, Settle 0 (Rejected e_utf8))] initial) = Some 1"
  by code_simp

section \<open>A failed status call\<close>

text \<open>
  Claim C7, as the code has it. When the status call of a timer tick is rejected, the
  handler only calls \<^verbatim>\<open>stopProgressMonitoring\<close>: the timer handle, if set, is cleared and
  nulled, the status call is gone and none is issued in its place (no command is invoked),
  but no entry is added to the transient log and \<open>processing\<close>, \<open>processingStatus\<close> and
  \<open>processingResult\<close> keep their values; the failure goes to the console only.
\<close>

theorem poll_failure_only_stops_timer:
  assumes "map_of (tasks w) i = Some (Await_status sid, ks)"
  shows "\<exists>w'. settle i (Rejected e) now w = Some w'
          \<and> progressLogs w' = progressLogs w
          \<and> invoked w' = invoked w
          \<and> tasks w' = filter (\<lambda>t. fst t \<noteq> i) (tasks w)
          \<and> processing w' = processing w
          \<and> processingStatus w' = processingStatus w
          \<and> processingResult w' = processingResult w
          \<and> (progressInterval w' = None \<or> progressInterval w' = Some 0)
          \<and> cleared w' = cleared w @
               (case progressInterval w of None \<Rightarrow> [] | Some h \<Rightarrow> if h = 0 then [] else [h])
          \<and> intervals w' =
               (case progressInterval w of
                  None \<Rightarrow> intervals w
                | Some h \<Rightarrow> if h = 0 then intervals w
                            else filter (\<lambda>(h', s). h' \<noteq> h) (intervals w))"
  using assms
  by (auto simp: settle_def on_status_def stopProgressMonitoring_def split: option.splits)

theorem poll_failure_only_stops_timer_witness:
  "map_of (tasks w_polling) 1 = Some (Await_status ''s1'', [])
   \<and> (\<exists>w'. settle 1 (Rejected e_worker) 4 w_polling = Some w'
          \<and> progressLogs w' = progressLogs w_polling
          \<and> invoked w' = invoked w_polling
          \<and> processing w' = processing w_polling
          \<and> cleared w' = [1]
          \<and> intervals w' = [])"
proof -
  have a: "map_of (tasks w_polling) 1 = Some (Await_status ''s1'', [])"
    by (simp add: w_polling_def tick_def startProgressMonitoring_def Let_def initial_def
          addLog_def addPersistentLog_def invoke_def)
  have b: "progressInterval w_polling = Some 1" "cleared w_polling = []"
          "intervals w_polling = [(1, ''s1'')]"
    by (simp_all add: w_polling_def tick_def startProgressMonitoring_def Let_def initial_def)
  from poll_failure_only_stops_timer[OF a, of e_worker 4] a b show ?thesis by auto
qed

text \<open>
  The claim fails as stated: a file is submitted, a timer is started for session \<open>s1\<close> and
  its first status call is rejected. The timer is cleared, but the transient log holds no
  entry of kind \<open>Error\<close> and the state still says \<open>processing\<close>, with no result.
\<close>

theorem poll_failure_logs_nothing:
  "map_option error_entries
     (run [(1, Call_processFile), (2, Call_startProgressMonitoring ''s1''), (3, Interval_fires 1),
           (4, Settle 3 (Rejected e_worker))] w_ready) = Some []
   \<and> map_option processing
     (run [(1, Call_processFile), (2, Call_startProgressMonitoring ''s1''), (3, Interval_fires 1),
           (4, Settle 3 (Rejected e_worker))] w_ready) = Some True
   \<and> map_option processingResult
     (run [(1, Call_processFile), (2, Call_startProgressMonitoring ''s1''), (3, Interval_fires 1),
           (4, Settle 3 (Rejected e_worker))] w_ready) = Some None
   \<and> map_option cleared
     (run [(1, Call_processFile), (2, Call_startProgressMonitoring ''s1''), (3, Interval_fires 1),
           (4, Settle 3 (Rejected e_worker))] w_ready) = Some [1]"
  by code_simp

section \<open>Mirroring into the persisted log\<close>



section \<open>Repeated progress entries\<close>

text \<open>
  Claim C9. When the last entry of the transient log is a progress entry with message
  \<open>m\<close>, \<^verbatim>\<open>addLog(m, 'progress')\<close> changes nothing: the log, and the rest of the state, stay
  as they are.
\<close>

theorem addLog_drops_repeated_progress:
  assumes "progressLogs w \<noteq> []"
      and "type (last (progressLogs w)) = Progress"
      and "message (last (progressLogs w)) = m"
  shows "addLog m Progress now w = w
       \<and> length (progressLogs (addLog m Progress now w)) = length (progressLogs w)"
  using assms by (simp add: addLog_def)

theorem addLog_drops_repeated_progress_witness:
  "progressLogs w_progress \<noteq> []
   \<and> type (last (progressLogs w_progress)) = Progress
   \<and> message (last (progressLogs w_progress)) = ''file 1''
   \<and> addLog ''file 1'' Progress 2 w_progress = w_progress"
proof -
  have a: "progressLogs w_progress \<noteq> []"
          "type (last (progressLogs w_progress)) = Progress"
          "message (last (progressLogs w_progress)) = ''file 1''"
    by (simp_all add: w_progress_def)
  from addLog_drops_repeated_progress[OF a, of 2] a show ?thesis by simp
qed

section \<open>The cap of the transient log\<close>

text \<open>
  Claim C10. In every state the component reaches from its initial state the transient log
  holds at most 100 entries, and so it does after a further \<^verbatim>\<open>addLog\<close>; unless the entry
  is a repeated progress entry, the log is then the old log with the new entry at its end,
  cut from the front to the last 100 entries.
\<close>

theorem transient_log_capped_fifo:
  assumes "run evs initial = Some w"
  shows "length (progressLogs w) \<le> 100
       \<and> length (progressLogs (addLog m t now w)) \<le> 100
       \<and> progressLogs (addLog m t now w) =
           (if t = Progress \<and> progressLogs w \<noteq> [] \<and> type (last (progressLogs w)) = Progress
                \<and> message (last (progressLogs w)) = m
            then progressLogs w
            else drop (length (progressLogs w) + 1 - 100)
                   (progressLogs w @ [\<lparr> message = m, timestamp = now, type = t \<rparr>]))"
proof -
  have b: "ring_bounded w" using ring_bounded_run[OF ring_bounded_initial assms] .
  then have "ring_bounded (addLog m t now w)" by (rule ring_bounded_addLog)
  with b show ?thesis by (simp add: ring_bounded_def addLog_progressLogs slice_last_def)
qed

theorem transient_log_capped_fifo_witness:
  "run [(1, Call_addLog ''a'' Info)] initial = Some (addLog ''a'' Info 1 initial)
   \<and> length (progressLogs (addLog ''b'' Info 2 (addLog ''a'' Info 1 initial))) \<le> 100
   \<and> progressLogs (addLog ''b'' Info 2 (addLog ''a'' Info 1 initial))
       = [\<lparr> message = ''a'', timestamp = 1, type = Info \<rparr>,
          \<lparr> message = ''b'', timestamp = 2, type = Info \<rparr>]"
proof -
  have a: "run [(1, Call_addLog ''a'' Info)] initial = Some (addLog ''a'' Info 1 initial)"
    by simp
  have b: "progressLogs (addLog ''a'' Info 1 initial) = [\<lparr> message = ''a'', timestamp = 1, type = Info \<rparr>]"
    by (simp add: addLog_progressLogs initial_def slice_last_def)
  from transient_log_capped_fifo[OF a, of "''b''" Info 2] a b show ?thesis by simp
qed

text \<open>At the cap: after 101 entries, numbered from 0, the ring holds entries 1 to 100.\<close>

lemma ring_evicts_oldest_at_cap:
  "map_option (length \<circ> progressLogs)
     (run (map (\<lambda>i. (i, Call_addLog (show_nat i) Info)) [0..<101]) initial) = Some 100
   \<and> map_option (message \<circ> hd \<circ> progressLogs)
     (run (map (\<lambda>i. (i, Call_addLog (show_nat i) Info)) [0..<101]) initial) = Some ''1''
   \<and> map_option (message \<circ> last \<circ> progressLogs)
     (run (map (\<lambda>i. (i, Call_addLog (show_nat i) Info)) [0..<101]) initial) = Some ''100''"
  by code_simp

end
